theory Spec2Isabelle
  imports Main "HOL-Library.Char_ord" "HOL-Library.List_Lexorder"
    "HOL-Library.Product_Lexorder" "HOL-Library.Sublist" "HOL-Library.Multiset"
begin

section \<open>Data model\<close>

text \<open>
  Both scripts pass links around as Python dicts with string keys. The values are strings,
  except \<open>status_code\<close>, which holds the integer HTTP status or a diagnostic string.
  A \<open>char\<close> of the model stands for one character of a Python \<open>str\<close>.
\<close>

datatype pyval = PStr string | PInt int

type_synonym pydict = "string \<rightharpoonup> pyval"

datatype py_error = KeyError | TypeError | ValueError | ParseError | RequestException | DanglingRef
  | UnicodeEncodeError | OSError

text \<open>
  An exception raised by \<open>requests\<close>. The handlers of \<open>check_link\<close> only ask
  whether it is an instance of \<open>requests.exceptions.ConnectionError\<close>, whether it is an
  instance of \<open>requests.exceptions.Timeout\<close>, and for \<open>str(e)\<close>. The two classes are
  not disjoint: \<open>requests.exceptions.ConnectTimeout\<close> is declared as
  \<open>class ConnectTimeout(ConnectionError, Timeout)\<close>, while \<open>ReadTimeout\<close> inherits
  from \<open>Timeout\<close> only.
\<close>

record exn =
  is_ConnectionError :: bool
  is_Timeout :: bool
  exn_str :: string

record response =
  r_url :: string
  r_status_code :: int

text \<open>A request as issued: method, URL, \<open>timeout\<close> and \<open>allow_redirects\<close>.\<close>

datatype http_method = HEAD | GET

datatype http_call = Request http_method string nat bool

definition TIMEOUT :: nat where
  "TIMEOUT = 15"

text \<open>
  The world outside the program: what \<open>requests.head\<close> and \<open>requests.get\<close>
  (with \<open>allow_redirects=True\<close> and the fixed timeout) do for a URL: a response
  or an exception; the clock, \<open>datetime.utcnow().isoformat()\<close>; and what \<open>print\<close> does
  with a line, given as the list of its Unicode code points: \<open>None\<close> when the line is
  written to standard output, or the exception it raises (\<open>UnicodeEncodeError\<close> when the
  encoding of standard output has no code for a character of the line, \<open>OSError\<close> when
  the stream is closed or the pipe is broken).
\<close>

record env =
  http_head :: "string \<Rightarrow> exn + response"
  http_get :: "string \<Rightarrow> exn + response"
  utcnow_iso :: string
  stdout_print :: "nat list \<Rightarrow> py_error option"

section \<open>The link verifier\<close>

text \<open>\<open>s.rstrip("/")\<close>: every trailing slash is removed.\<close>

definition rstrip_slash :: "string \<Rightarrow> string" where
  "rstrip_slash s = rev (dropWhile (\<lambda>c. c = CHR ''/'') (rev s))"

text \<open>
  The requests of the \<open>try\<close> block: HEAD first; on 405, 403 or 501 the response is
  replaced by that of a GET. An exception of either call leaves the block at once. The
  second component lists the requests issued, in order.
\<close>

definition request_link :: "env \<Rightarrow> string \<Rightarrow> (exn + response) \<times> http_call list" where
  "request_link env url =
     (case http_head env url of
        Inl e \<Rightarrow> (Inl e, [Request HEAD url TIMEOUT True])
      | Inr r \<Rightarrow>
          if r_status_code r \<in> {405, 403, 501}
          then (http_get env url, [Request HEAD url TIMEOUT True, Request GET url TIMEOUT True])
          else (Inr r, [Request HEAD url TIMEOUT True]))"

text \<open>
  The classification: the values stored under \<open>status\<close>, \<open>status_code\<close> and
  \<open>final_url\<close>. The \<open>except\<close> clauses are tried in the order of the source:
  \<open>ConnectionError\<close>, then \<open>Timeout\<close>, then \<open>Exception\<close>.
\<close>

definition classify :: "string \<Rightarrow> exn + response \<Rightarrow> string \<times> pyval \<times> string" where
  "classify url attempt =
     (case attempt of
        Inr r \<Rightarrow>
          (let final_url = r_url r;
               status_code = r_status_code r;
               redirected = (rstrip_slash final_url \<noteq> rstrip_slash url)
           in if 200 \<le> status_code \<and> status_code < 400
              then (if \<not> redirected then ''OK'' else ''REDIRECT'',
                    PInt status_code,
                    if redirected then final_url else '''')
              else (''BROKEN'', PInt status_code, ''''))
      | Inl e \<Rightarrow>
          if is_ConnectionError e then (''BROKEN'', PStr ''Connection Error'', '''')
          else if is_Timeout e then (''TIMEOUT'', PStr ''Timeout'', '''')
          else (''ERROR'', PStr (take 60 (exn_str e)), ''''))"

subsection \<open>The progress line\<close>

text \<open>
  After the handlers, outside the \<open>try\<close>, \<open>check_link\<close> prints one line: an icon
  chosen by the status, the status code and the start of the URL. The icons are not in
  Latin-1, so the line is a list of code points; a character of a \<open>string\<close> of the model
  is its own code point.
\<close>

definition codepoints :: "string \<Rightarrow> nat list" where
  "codepoints s = map of_char s"

text \<open>\<open>str(n)\<close> for an integer, as the f-string formats \<open>result['status_code']\<close>.\<close>

fun str_nat :: "nat \<Rightarrow> string" where
  "str_nat n = (if n < 10 then [char_of (48 + n)]
                else str_nat (n div 10) @ [char_of (48 + n mod 10)])"

declare str_nat.simps [simp del]

definition str_int :: "int \<Rightarrow> string" where
  "str_int i = (if i < 0 then CHR ''-'' # str_nat (nat (- i)) else str_nat (nat i))"

definition format_value :: "pyval \<Rightarrow> string" where
  "format_value v = (case v of PStr s \<Rightarrow> s | PInt n \<Rightarrow> str_int n)"

text \<open>
  The dict \<open>icon\<close>: U+2705, U+21AA U+FE0F, U+274C, U+23F1 U+FE0F, U+26A0 U+FE0F; and
  \<open>icon.get(status, '?')\<close>.
\<close>

definition icon :: "(string \<times> nat list) list" where
  "icon = [(''OK'', [0x2705]), (''REDIRECT'', [0x21AA, 0xFE0F]), (''BROKEN'', [0x274C]),
           (''TIMEOUT'', [0x23F1, 0xFE0F]), (''ERROR'', [0x26A0, 0xFE0F])]"

definition icon_get :: "string \<Rightarrow> nat list" where
  "icon_get status = (case map_of icon status of Some i \<Rightarrow> i | None \<Rightarrow> codepoints ''?'')"

text \<open>
  The f-string of the sitewide script,
  \<open>f"  {icon.get(result['status'], '?')} [{result['status_code']}] {url[:75]}"\<close>, and that of
  the webcam script,
  \<open>f"  {icon.get(result['status'], '?')}  [{result['status_code']}]  {url[:80]}"\<close>.
\<close>

definition progress_line :: "string \<Rightarrow> pyval \<Rightarrow> string \<Rightarrow> nat list" where
  "progress_line status status_code url =
     codepoints ''  '' @ icon_get status
       @ codepoints ('' ['' @ format_value status_code @ ''] '' @ take 75 url)"

definition progress_line_webcam :: "string \<Rightarrow> pyval \<Rightarrow> string \<Rightarrow> nat list" where
  "progress_line_webcam status status_code url =
     codepoints ''  '' @ icon_get status
       @ codepoints (''  ['' @ format_value status_code @ '']  '' @ take 80 url)"

subsection \<open>\<open>check_link\<close>\<close>

text \<open>
  The body of \<open>check_link\<close>, which the two scripts share up to the f-string of the
  progress line (the parameter \<open>line\<close>). \<open>entry["url"]\<close> raises \<open>KeyError\<close> before the
  \<open>try\<close>. The \<open>print\<close> stands after the last handler: what it raises leaves
  \<open>check_link\<close>, and the result is not returned. There a \<open>url\<close> that is not a string
  makes \<open>url[:75]\<close> raise \<open>TypeError\<close>.
\<close>

definition check_link_with ::
  "(string \<Rightarrow> pyval \<Rightarrow> string \<Rightarrow> nat list) \<Rightarrow> env \<Rightarrow> pydict
     \<Rightarrow> py_error + (pydict \<times> http_call list)" where
  "check_link_with line env entry =
     (case entry ''url'' of
        None \<Rightarrow> Inl KeyError
      | Some (PInt n) \<Rightarrow> Inl TypeError
      | Some (PStr url) \<Rightarrow>
          (let result = entry(''checked_at'' \<mapsto> PStr (utcnow_iso env @ ''Z''));
               (attempt, calls) = request_link env url;
               (status, status_code, final_url) = classify url attempt
           in case stdout_print env (line status status_code url) of
                Some e \<Rightarrow> Inl e
              | None \<Rightarrow>
                  Inr (result(''status'' \<mapsto> PStr status,
                              ''status_code'' \<mapsto> status_code,
                              ''final_url'' \<mapsto> PStr final_url),
                       calls)))"

text \<open>\<open>check_link\<close> of the sitewide script and \<open>check_link\<close> of the webcam script.\<close>

definition check_link :: "env \<Rightarrow> pydict \<Rightarrow> py_error + (pydict \<times> http_call list)" where
  "check_link = check_link_with progress_line"

definition check_link_webcam :: "env \<Rightarrow> pydict \<Rightarrow> py_error + (pydict \<times> http_call list)" where
  "check_link_webcam = check_link_with progress_line_webcam"

definition statuses :: "string list" where
  "statuses = [''OK'', ''REDIRECT'', ''BROKEN'', ''TIMEOUT'', ''ERROR'']"

text \<open>
  The wording of the specification for the redirect test, "ignoring a single trailing
  slash": at most one slash is removed.
\<close>

definition strip_single_slash :: "string \<Rightarrow> string" where
  "strip_single_slash s = (if s \<noteq> [] \<and> last s = CHR ''/'' then butlast s else s)"

subsection \<open>The verifier on a store of dict objects\<close>

text \<open>
  To state that the argument dict is left alone, dict objects live in a store and are
  passed by reference (an index into the store). \<open>entry.copy()\<close> allocates a new
  object; every assignment \<open>result[k] = v\<close> updates the object \<open>result\<close> refers to.
  \<open>DanglingRef\<close> marks a reference outside the store, which Python cannot produce.
\<close>

type_synonym store = "pydict list"

definition dict_copy :: "store \<Rightarrow> nat \<Rightarrow> store \<times> nat" where
  "dict_copy h a = (h @ [h ! a], length h)"

definition dict_setitem :: "store \<Rightarrow> nat \<Rightarrow> string \<Rightarrow> pyval \<Rightarrow> store" where
  "dict_setitem h a k v = h[a := (h ! a)(k \<mapsto> v)]"

definition check_link_store ::
  "env \<Rightarrow> store \<Rightarrow> nat \<Rightarrow> py_error + (store \<times> nat \<times> http_call list)" where
  "check_link_store env h entry =
     (if \<not> entry < length h then Inl DanglingRef
      else case (h ! entry) ''url'' of
        None \<Rightarrow> Inl KeyError
      | Some (PInt n) \<Rightarrow> Inl TypeError
      | Some (PStr url) \<Rightarrow>
          (let (h1, result) = dict_copy h entry;
               h2 = dict_setitem h1 result ''checked_at'' (PStr (utcnow_iso env @ ''Z''));
               (attempt, calls) = request_link env url;
               (status, status_code, final_url) = classify url attempt;
               h3 = dict_setitem h2 result ''status'' (PStr status);
               h4 = dict_setitem h3 result ''status_code'' status_code;
               h5 = dict_setitem h4 result ''final_url'' (PStr final_url)
           in case stdout_print env (progress_line status status_code url) of
                Some e \<Rightarrow> Inl e
              | None \<Rightarrow> Inr (h5, result, calls)))"

definition outcome_keys :: "string set" where
  "outcome_keys = {''checked_at'', ''status'', ''status_code'', ''final_url''}"

section \<open>The verification orchestrator\<close>

text \<open>\<open>future.result()\<close> re-raises what the task raised: the first error ends the loop.\<close>

fun collect :: "(py_error + 'a) list \<Rightarrow> py_error + 'a list" where
  "collect [] = Inr []"
| "collect (Inl e # xs) = Inl e"
| "collect (Inr x # xs) = (case collect xs of Inl e \<Rightarrow> Inl e | Inr ys \<Rightarrow> Inr (x # ys))"

definition order :: "(string \<times> nat) list" where
  "order = [(''BROKEN'', 0), (''TIMEOUT'', 1), (''ERROR'', 2), (''REDIRECT'', 3), (''OK'', 4)]"

text \<open>\<open>order.get(r["status"], 5)\<close>, for a result that has a \<open>status\<close>.\<close>

definition severity :: "pydict \<Rightarrow> nat" where
  "severity r =
     (case r ''status'' of
        Some (PStr s) \<Rightarrow> (case map_of order s of Some n \<Rightarrow> n | None \<Rightarrow> 5)
      | _ \<Rightarrow> 5)"

text \<open>\<open>r.get("site", "")\<close>.\<close>

definition site_key :: "pydict \<Rightarrow> pyval" where
  "site_key r = (case r ''site'' of None \<Rightarrow> PStr [] | Some v \<Rightarrow> v)"

definition is_str :: "pyval \<Rightarrow> bool" where
  "is_str v = (case v of PStr s \<Rightarrow> True | PInt n \<Rightarrow> False)"

definition str_of :: "pyval \<Rightarrow> string" where
  "str_of v = (case v of PStr s \<Rightarrow> s | PInt n \<Rightarrow> [])"

definition int_of :: "pyval \<Rightarrow> int" where
  "int_of v = (case v of PInt n \<Rightarrow> n | PStr s \<Rightarrow> 0)"

text \<open>
  \<open>results.sort(key=lambda r: (r.get("site", ""), order.get(r["status"], 5)))\<close> of the
  sitewide script. The keys are computed first, so a result without \<open>status\<close> raises
  \<open>KeyError\<close>. Python's sort is stable and compares the key tuples lexicographically,
  strings by code point; \<open>sort_key\<close> is the stable insertion sort of the library, here on
  the lexicographic order of pairs and of character lists. Python orders strings among
  themselves and integers among themselves, and raises \<open>TypeError\<close> when a comparison
  meets one of each.
\<close>

definition sort_results :: "pydict list \<Rightarrow> py_error + pydict list" where
  "sort_results results =
     (if list_ex (\<lambda>r. r ''status'' = None) results then Inl KeyError
      else if list_all (\<lambda>r. is_str (site_key r)) results
      then Inr (sort_key (\<lambda>r. (str_of (site_key r), severity r)) results)
      else if list_all (\<lambda>r. \<not> is_str (site_key r)) results
      then Inr (sort_key (\<lambda>r. (int_of (site_key r), severity r)) results)
      else Inl TypeError)"

text \<open>\<open>results.sort(key=lambda r: order.get(r["status"], 5))\<close> of the webcam script.\<close>

definition sort_results_webcam :: "pydict list \<Rightarrow> py_error + pydict list" where
  "sort_results_webcam results =
     (if list_ex (\<lambda>r. r ''status'' = None) results then Inl KeyError
      else Inr (sort_key severity results))"

text \<open>
  \<open>check_all_links\<close>. \<open>as_completed\<close> yields the futures in the order in which the
  checks finish; \<open>completed\<close> is that order, applied to the submitted links.
\<close>

definition check_all_links ::
  "env \<Rightarrow> (pydict list \<Rightarrow> pydict list) \<Rightarrow> pydict list \<Rightarrow> py_error + pydict list" where
  "check_all_links env completed links =
     (case collect (map (check_link env) (completed links)) of
        Inl e \<Rightarrow> Inl e
      | Inr results \<Rightarrow> sort_results (map fst results))"

definition check_all_links_webcam ::
  "env \<Rightarrow> (pydict list \<Rightarrow> pydict list) \<Rightarrow> pydict list \<Rightarrow> py_error + pydict list" where
  "check_all_links_webcam env completed links =
     (case collect (map (check_link_webcam env) (completed links)) of
        Inl e \<Rightarrow> Inl e
      | Inr results \<Rightarrow> sort_results_webcam (map fst results))"

section \<open>Seed resolver, link extractor and page crawler\<close>

text \<open>
  What the crawler reads of a parsed page (\<open>BeautifulSoup(r.text, "html.parser")\<close>):
  the stripped text of its \<open>title\<close> element if there is one, and for each \<open>a\<close>
  element with an \<open>href\<close>, in document order, the attribute as written, the stripped
  text of the element, and the stripped text of the nearest enclosing \<open>h3\<close> if any.
\<close>

record anchor =
  a_href :: string
  a_text :: string
  a_parent_h3 :: "string option"

record html_doc =
  title_tag :: "string option"
  anchors :: "anchor list"

text \<open>
  What is read of a parsed sitemap document: for each \<open>sm:sitemap\<close> child and each
  \<open>sm:url\<close> child of the root, the value of \<open>findtext("sm:loc")\<close>.
\<close>

record xml_doc =
  sitemap_locs :: "string option list"
  url_locs :: "string option list"

text \<open>
  The libraries the crawler calls, taken as parameters: \<open>fetch_text\<close> is
  \<open>requests.get\<close> followed by \<open>raise_for_status()\<close>, giving \<open>r.text\<close> or the
  exception raised (network error or a status of 400 and above); \<open>parse_xml\<close> is
  \<open>ET.fromstring\<close>, \<open>None\<close> when it raises \<open>ParseError\<close>; \<open>parse_html\<close> is
  BeautifulSoup; \<open>domain_of\<close> is \<open>urlparse(href).netloc.lower()\<close>, \<open>None\<close> when
  \<open>urlparse\<close> raises \<open>ValueError\<close>.
\<close>

record web =
  fetch_text :: "string \<Rightarrow> exn + string"
  parse_xml :: "string \<Rightarrow> xml_doc option"
  parse_html :: "string \<Rightarrow> html_doc"
  domain_of :: "string \<Rightarrow> string option"

text \<open>An entry of \<open>SITES\<close>; field \<open>cfg_k\<close> is the value under key \<open>k\<close>.\<close>

record site_config =
  cfg_name :: string
  cfg_base_url :: string
  cfg_sitemap_url :: string
  cfg_sitemap_filter :: "string list"
  cfg_skip_domains :: "string set"

definition GLOBAL_SKIP_DOMAINS :: "string set" where
  "GLOBAL_SKIP_DOMAINS = {''wordpress.org'', ''www.elegantthemes.com'', ''elegantthemes.com'',
     ''schema.org'', ''www.w3.org'', ''fonts.googleapis.com'', ''fonts.gstatic.com''}"

definition SKIP_DOMAINS :: "string set" where
  "SKIP_DOMAINS = {''www.eyehike.com'', ''eyehike.com'', ''wordpress.org'',
     ''www.elegantthemes.com''}"

subsection \<open>\<open>parse_sitemap_index\<close>\<close>

text \<open>The body of the loop over the sub-sitemaps: any exception skips the sub-sitemap.\<close>

definition fetch_sub_sitemap :: "web \<Rightarrow> string \<Rightarrow> string list" where
  "fetch_sub_sitemap w sub_url =
     (case fetch_text w sub_url of
        Inl e \<Rightarrow> []
      | Inr text \<Rightarrow>
          (case parse_xml w text of
             None \<Rightarrow> []
           | Some root2 \<Rightarrow>
               concat (map (\<lambda>loc. case loc of None \<Rightarrow> [] | Some l \<Rightarrow> if l \<noteq> [] then [l] else [])
                           (url_locs root2))))"

text \<open>
  \<open>parse_sitemap_index\<close>. Only the fetch of the index is inside the first \<open>try\<close>;
  \<open>ET.fromstring(r.text)\<close> follows it, outside any handler.
\<close>

definition parse_sitemap_index :: "web \<Rightarrow> string \<Rightarrow> string list \<Rightarrow> py_error + string list" where
  "parse_sitemap_index w sitemap_url filter_list =
     (case fetch_text w sitemap_url of
        Inl e \<Rightarrow> Inr []
      | Inr text \<Rightarrow>
          (case parse_xml w text of
             None \<Rightarrow> Inl ParseError
           | Some root \<Rightarrow>
               (let sub_sitemaps =
                      filter (\<lambda>loc. list_ex (\<lambda>f. sublist f loc) filter_list)
                        (map (\<lambda>t. case t of None \<Rightarrow> [] | Some l \<Rightarrow> l) (sitemap_locs root))
                in Inr (concat (map (fetch_sub_sitemap w) sub_sitemaps)))))"

subsection \<open>\<open>extract_links_from_page\<close> and \<open>scrape_links\<close>\<close>

text \<open>
  \<open>str.strip()\<close>: the characters below 256 for which \<open>str.isspace()\<close> holds are removed
  from both ends.
\<close>

definition isspace :: "char \<Rightarrow> bool" where
  "isspace c = ((of_char c :: nat) \<in> {9, 10, 11, 12, 13, 28, 29, 30, 31, 32, 133, 160})"

definition strip :: "string \<Rightarrow> string" where
  "strip s = rev (dropWhile isspace (rev (dropWhile isspace s)))"

text \<open>
  The loop over the anchors of \<open>extract_links_from_page\<close>, with the list \<open>links\<close>
  and the set \<open>seen\<close> as accumulators.
\<close>

fun extract_loop ::
  "web \<Rightarrow> string set \<Rightarrow> string \<Rightarrow> string \<Rightarrow> anchor list \<Rightarrow> pydict list \<Rightarrow> string set
     \<Rightarrow> py_error + pydict list" where
  "extract_loop w all_skip page_url page_title [] links seen = Inr links"
| "extract_loop w all_skip page_url page_title (tag # tags) links seen =
     (let href = strip (a_href tag);
          label = (if take 80 (a_text tag) \<noteq> [] then take 80 (a_text tag) else take 80 href)
      in if \<not> prefix ''http'' href
         then extract_loop w all_skip page_url page_title tags links seen
         else case domain_of w href of
                None \<Rightarrow> Inl ValueError
              | Some domain \<Rightarrow>
                  if domain \<in> all_skip
                  then extract_loop w all_skip page_url page_title tags links seen
                  else if href \<in> seen
                  then extract_loop w all_skip page_url page_title tags links seen
                  else extract_loop w all_skip page_url page_title tags
                         (links @ [[''url'' \<mapsto> PStr href, ''label'' \<mapsto> PStr label,
                                    ''page_url'' \<mapsto> PStr page_url,
                                    ''page_title'' \<mapsto> PStr page_title]])
                         (insert href seen))"

definition extract_links_from_page :: "web \<Rightarrow> string \<Rightarrow> string set \<Rightarrow> py_error + pydict list" where
  "extract_links_from_page w page_url skip =
     (let all_skip = skip \<union> GLOBAL_SKIP_DOMAINS
      in case fetch_text w page_url of
           Inl e \<Rightarrow> Inr []
         | Inr text \<Rightarrow>
             (let soup = parse_html w text;
                  page_title = (case title_tag soup of Some t \<Rightarrow> take 80 t | None \<Rightarrow> page_url)
              in extract_loop w all_skip page_url page_title (anchors soup) [] {}))"

text \<open>The loop of \<open>scrape_links\<close> (webcam script).\<close>

fun scrape_loop ::
  "web \<Rightarrow> anchor list \<Rightarrow> pydict list \<Rightarrow> string set \<Rightarrow> py_error + pydict list" where
  "scrape_loop w [] links seen = Inr links"
| "scrape_loop w (tag # tags) links seen =
     (let href = strip (a_href tag);
          label = (if a_text tag \<noteq> [] then a_text tag else href)
      in if \<not> prefix ''http'' href
         then scrape_loop w tags links seen
         else case domain_of w href of
                None \<Rightarrow> Inl ValueError
              | Some domain \<Rightarrow>
                  if domain \<in> SKIP_DOMAINS
                  then scrape_loop w tags links seen
                  else if href \<in> seen
                  then scrape_loop w tags links seen
                  else (let section = (case a_parent_h3 tag of
                                         Some t \<Rightarrow> take 80 t
                                       | None \<Rightarrow> take 80 label)
                        in scrape_loop w tags
                             (links @ [[''url'' \<mapsto> PStr href, ''label'' \<mapsto> PStr label,
                                        ''section'' \<mapsto> PStr section]])
                             (insert href seen)))"

text \<open>\<open>scrape_links\<close> has no handler around the fetch: its exception propagates.\<close>

definition scrape_links :: "web \<Rightarrow> string \<Rightarrow> py_error + pydict list" where
  "scrape_links w url =
     (case fetch_text w url of
        Inl e \<Rightarrow> Inl RequestException
      | Inr text \<Rightarrow> scrape_loop w (anchors (parse_html w text)) [] {})"

subsection \<open>\<open>crawl_site\<close>\<close>

text \<open>
  The inner loop over the links of one page. \<open>link["site"] = ...\<close> updates the dict the
  extractor built for this page, which nothing else refers to.
\<close>

fun merge_links ::
  "string \<Rightarrow> pydict list \<Rightarrow> pydict list \<Rightarrow> pyval set \<Rightarrow> py_error + (pydict list \<times> pyval set)" where
  "merge_links site_name [] all_links seen_urls = Inr (all_links, seen_urls)"
| "merge_links site_name (link # page_links) all_links seen_urls =
     (case link ''url'' of
        None \<Rightarrow> Inl KeyError
      | Some u \<Rightarrow>
          if u \<notin> seen_urls
          then merge_links site_name page_links
                 (all_links @ [link(''site'' \<mapsto> PStr site_name)]) (insert u seen_urls)
          else merge_links site_name page_links all_links seen_urls)"

text \<open>
  The outer loop over the completed futures; \<open>future.result()\<close> re-raises the exception
  of a page task.
\<close>

fun merge_pages ::
  "string \<Rightarrow> (py_error + pydict list) list \<Rightarrow> pydict list \<Rightarrow> pyval set \<Rightarrow> py_error + pydict list" where
  "merge_pages site_name [] all_links seen_urls = Inr all_links"
| "merge_pages site_name (Inl e # futures) all_links seen_urls = Inl e"
| "merge_pages site_name (Inr page_links # futures) all_links seen_urls =
     (case merge_links site_name page_links all_links seen_urls of
        Inl e \<Rightarrow> Inl e
      | Inr (all_links', seen_urls') \<Rightarrow> merge_pages site_name futures all_links' seen_urls')"

text \<open>
  \<open>crawl_site\<close>. \<open>completed\<close> is the order in which \<open>as_completed\<close> yields the page
  tasks, applied to the submitted page URLs.
\<close>

definition crawl_site ::
  "web \<Rightarrow> (string list \<Rightarrow> string list) \<Rightarrow> site_config \<Rightarrow> py_error + pydict list" where
  "crawl_site w completed site =
     (case parse_sitemap_index w (cfg_sitemap_url site) (cfg_sitemap_filter site) of
        Inl e \<Rightarrow> Inl e
      | Inr page_urls \<Rightarrow>
          if page_urls = [] then Inr []
          else merge_pages (cfg_name site)
                 (map (\<lambda>url. extract_links_from_page w url (cfg_skip_domains site))
                      (completed page_urls))
                 [] {})"

text \<open>
  The links the pages of a site contribute, page after page in completion order: what the
  merge of \<open>crawl_site\<close> reads.
\<close>

definition all_page_links ::
  "web \<Rightarrow> (string list \<Rightarrow> string list) \<Rightarrow> site_config \<Rightarrow> pydict list" where
  "all_page_links w completed site =
     (case parse_sitemap_index w (cfg_sitemap_url site) (cfg_sitemap_filter site) of
        Inl e \<Rightarrow> []
      | Inr page_urls \<Rightarrow>
          if page_urls = [] then []
          else concat (map (\<lambda>url. case extract_links_from_page w url (cfg_skip_domains site) of
                                    Inl e \<Rightarrow> [] | Inr page_links \<Rightarrow> page_links)
                           (completed page_urls)))"

text \<open>
  The invariant of the merge, for the links \<open>cands\<close> read so far: \<open>seen_urls\<close> holds
  exactly the URLs of \<open>all_links\<close>, no URL occurs twice in \<open>all_links\<close>, every member of
  \<open>all_links\<close> is the first link read with its URL, with the site name added, and every
  link read has a URL, which some member of \<open>all_links\<close> carries.
\<close>

definition merge_inv :: "string \<Rightarrow> pydict list \<Rightarrow> pyval set \<Rightarrow> pydict list \<Rightarrow> bool" where
  "merge_inv site_name all_links seen_urls cands \<longleftrightarrow>
     seen_urls = {u. \<exists>r\<in>set all_links. r ''url'' = Some u}
     \<and> distinct (map (\<lambda>r. r ''url'') all_links)
     \<and> (\<forall>r\<in>set all_links. \<exists>c. r = c(''site'' \<mapsto> PStr site_name)
            \<and> find (\<lambda>c'. c' ''url'' = c ''url'') cands = Some c)
     \<and> (\<forall>c\<in>set cands. c ''url'' \<noteq> None \<and> (\<exists>r\<in>set all_links. r ''url'' = c ''url''))"

section \<open>Concrete inputs\<close>

text \<open>
  Exceptions of \<open>requests\<close> by class: \<open>ConnectTimeout\<close> is both a
  \<open>ConnectionError\<close> and a \<open>Timeout\<close>, \<open>ReadTimeout\<close> only a \<open>Timeout\<close>.
\<close>

definition ConnectTimeout :: "string \<Rightarrow> exn" where
  "ConnectTimeout msg = \<lparr>is_ConnectionError = True, is_Timeout = True, exn_str = msg\<rparr>"

definition ReadTimeout :: "string \<Rightarrow> exn" where
  "ReadTimeout msg = \<lparr>is_ConnectionError = False, is_Timeout = True, exn_str = msg\<rparr>"

definition ConnectionRefused :: "string \<Rightarrow> exn" where
  "ConnectionRefused msg = \<lparr>is_ConnectionError = True, is_Timeout = False, exn_str = msg\<rparr>"

definition HTTPError :: "string \<Rightarrow> exn" where
  "HTTPError msg = \<lparr>is_ConnectionError = False, is_Timeout = False, exn_str = msg\<rparr>"

text \<open>
  A small web for the verifier: \<open>/ok\<close> answers 200, \<open>/moved\<close> redirects to
  \<open>/moved2\<close>, \<open>/nohead\<close> answers 403 to HEAD and 200 to GET, \<open>/slow\<close> times out
  while reading, \<open>/unreachable\<close> times out while connecting, \<open>/a\<close> ends at \<open>/a//\<close>,
  \<open>/gone\<close> answers 404, \<open>/away\<close> answers 403 to HEAD and its GET ends with 200 at
  \<open>/here\<close>; any other URL is refused. Standard output takes every line.
\<close>

definition example_env :: env where
  "example_env = \<lparr>
     http_head = (\<lambda>u.
       if u = ''https://example.com/ok'' then Inr \<lparr>r_url = u, r_status_code = 200\<rparr>
       else if u = ''https://example.com/moved''
         then Inr \<lparr>r_url = ''https://example.com/moved2'', r_status_code = 200\<rparr>
       else if u = ''https://example.com/nohead'' then Inr \<lparr>r_url = u, r_status_code = 403\<rparr>
       else if u = ''https://example.com/slow'' then Inl (ReadTimeout ''Read timed out.'')
       else if u = ''https://example.com/unreachable''
         then Inl (ConnectTimeout ''Connection to example.com timed out.'')
       else if u = ''https://example.com/a''
         then Inr \<lparr>r_url = ''https://example.com/a//'', r_status_code = 200\<rparr>
       else if u = ''https://example.com/gone'' then Inr \<lparr>r_url = u, r_status_code = 404\<rparr>
       else if u = ''https://example.com/away'' then Inr \<lparr>r_url = u, r_status_code = 403\<rparr>
       else Inl (ConnectionRefused ''Connection refused'')),
     http_get = (\<lambda>u.
       if u = ''https://example.com/nohead'' then Inr \<lparr>r_url = u, r_status_code = 200\<rparr>
       else if u = ''https://example.com/away''
         then Inr \<lparr>r_url = ''https://example.com/here'', r_status_code = 200\<rparr>
       else Inl (ConnectionRefused ''Connection refused'')),
     utcnow_iso = ''2024-01-01T08:00:00'',
     stdout_print = (\<lambda>line. None) \<rparr>"

text \<open>
  The same web with a standard output whose encoding is Latin-1 (as under
  \<open>PYTHONIOENCODING=latin-1\<close>; cp1252 has no code for the icons either): \<open>print\<close>
  raises \<open>UnicodeEncodeError\<close> on a line with a code point above 255.
\<close>

definition latin1_print :: "nat list \<Rightarrow> py_error option" where
  "latin1_print line = (if list_all (\<lambda>c. c < 256) line then None else Some UnicodeEncodeError)"

definition latin1_env :: env where
  "latin1_env = example_env \<lparr>stdout_print := latin1_print\<rparr>"

definition example_entry :: "string \<Rightarrow> string \<Rightarrow> pydict" where
  "example_entry site url =
     [''url'' \<mapsto> PStr url, ''label'' \<mapsto> PStr ''Example'',
      ''page_url'' \<mapsto> PStr ''https://www.eyehike.com/2016/webcams/'',
      ''page_title'' \<mapsto> PStr ''Webcams'', ''site'' \<mapsto> PStr site]"

text \<open>
  A small web for the crawler. The sitemap index lists a post sitemap and a category
  sitemap; the post sitemap lists two pages, which both link to \<open>/ok\<close>. The second
  index, at \<open>/broken_index.xml\<close>, is served but is not well-formed XML.
\<close>

definition example_web :: web where
  "example_web = \<lparr>
     fetch_text = (\<lambda>u.
       if u = ''https://www.eyehike.com/sitemap_index.xml'' then Inr ''INDEX''
       else if u = ''https://www.eyehike.com/broken_index.xml'' then Inr ''<html><br>''
       else if u = ''https://www.eyehike.com/post-sitemap.xml'' then Inr ''POSTS''
       else if u = ''https://www.eyehike.com/p1'' then Inr ''PAGE1''
       else if u = ''https://www.eyehike.com/p2'' then Inr ''PAGE2''
       else Inl (HTTPError ''404 Client Error'')),
     parse_xml = (\<lambda>t.
       if t = ''INDEX''
         then Some \<lparr>sitemap_locs = [Some ''https://www.eyehike.com/post-sitemap.xml'',
                                      Some ''https://www.eyehike.com/category-sitemap.xml''],
                     url_locs = []\<rparr>
       else if t = ''POSTS''
         then Some \<lparr>sitemap_locs = [],
                     url_locs = [Some ''https://www.eyehike.com/p1'',
                                 Some ''https://www.eyehike.com/p2'']\<rparr>
       else None),
     parse_html = (\<lambda>t.
       if t = ''PAGE1''
         then \<lparr>title_tag = Some ''Page one'',
                anchors = [\<lparr>a_href = ''https://example.com/ok'', a_text = ''first'',
                            a_parent_h3 = None\<rparr>,
                           \<lparr>a_href = ''httpd/manual.html'', a_text = ''manual'',
                            a_parent_h3 = None\<rparr>,
                           \<lparr>a_href = ''mailto:me@example.com'', a_text = ''mail'',
                            a_parent_h3 = None\<rparr>]\<rparr>
       else if t = ''PAGE2''
         then \<lparr>title_tag = Some ''Page two'',
                anchors = [\<lparr>a_href = ''https://example.com/ok'', a_text = ''second'',
                            a_parent_h3 = Some ''Heading''\<rparr>]\<rparr>
       else \<lparr>title_tag = None, anchors = []\<rparr>),
     domain_of = (\<lambda>h.
       if h = ''https://example.com/ok'' then Some ''example.com'' else Some []) \<rparr>"

definition example_site :: site_config where
  "example_site = \<lparr>
     cfg_name = ''Eyehike'',
     cfg_base_url = ''https://www.eyehike.com'',
     cfg_sitemap_url = ''https://www.eyehike.com/sitemap_index.xml'',
     cfg_sitemap_filter = [''post-sitemap.xml'', ''page-sitemap.xml''],
     cfg_skip_domains = {''www.eyehike.com'', ''eyehike.com''} \<rparr>"

section \<open>Properties of the link verifier\<close>

lemma classify_status: "fst (classify url attempt) \<in> set statuses"
  by (simp add: classify_def statuses_def Let_def split: sum.split)

lemma check_link_with_unfold:
  assumes "entry ''url'' = Some (PStr url)"
  shows "check_link_with line env entry =
    (case stdout_print env (line (fst (classify url (fst (request_link env url))))
                                 (fst (snd (classify url (fst (request_link env url))))) url) of
       Some e \<Rightarrow> Inl e
     | None \<Rightarrow>
         Inr ((entry(''checked_at'' \<mapsto> PStr (utcnow_iso env @ ''Z'')))
                (''status'' \<mapsto> PStr (fst (classify url (fst (request_link env url)))),
                 ''status_code'' \<mapsto> fst (snd (classify url (fst (request_link env url)))),
                 ''final_url'' \<mapsto> PStr (snd (snd (classify url (fst (request_link env url)))))),
              snd (request_link env url)))"
  using assms by (simp add: check_link_with_def Let_def case_prod_beta)

text \<open>The result, when \<open>check_link\<close> returns one.\<close>

lemma check_link_with_result:
  assumes "entry ''url'' = Some (PStr url)"
    and "check_link_with line env entry = Inr (result, calls)"
  shows "result = (entry(''checked_at'' \<mapsto> PStr (utcnow_iso env @ ''Z'')))
           (''status'' \<mapsto> PStr (fst (classify url (fst (request_link env url)))),
            ''status_code'' \<mapsto> fst (snd (classify url (fst (request_link env url)))),
            ''final_url'' \<mapsto> PStr (snd (snd (classify url (fst (request_link env url))))))
    \<and> calls = snd (request_link env url)"
  using assms by (auto simp add: check_link_with_unfold [of entry url] split: option.splits)

lemma check_link_result:
  assumes "entry ''url'' = Some (PStr url)"
    and "check_link env entry = Inr (result, calls)"
  shows "result = (entry(''checked_at'' \<mapsto> PStr (utcnow_iso env @ ''Z'')))
           (''status'' \<mapsto> PStr (fst (classify url (fst (request_link env url)))),
            ''status_code'' \<mapsto> fst (snd (classify url (fst (request_link env url)))),
            ''final_url'' \<mapsto> PStr (snd (snd (classify url (fst (request_link env url))))))
    \<and> calls = snd (request_link env url)"
  using assms check_link_with_result [of entry url progress_line env result calls]
  by (simp add: check_link_def)

lemma check_link_fields:
  assumes "entry ''url'' = Some (PStr url)"
    and "check_link env entry = Inr (result, calls)"
  shows "calls = snd (request_link env url)
    \<and> result ''status'' = Some (PStr (fst (classify url (fst (request_link env url)))))
    \<and> result ''status_code'' = Some (fst (snd (classify url (fst (request_link env url)))))
    \<and> result ''final_url'' = Some (PStr (snd (snd (classify url (fst (request_link env url))))))"
  using check_link_result [OF assms] by simp

text \<open>
  \<open>check_link\<close> returns exactly when the \<open>print\<close> of the progress line does; what
  \<open>print\<close> raises is raised by \<open>check_link\<close>.
\<close>

lemma check_link_printed:
  assumes "entry ''url'' = Some (PStr url)"
    and "stdout_print env (progress_line (fst (classify url (fst (request_link env url))))
           (fst (snd (classify url (fst (request_link env url))))) url) = None"
  shows "check_link env entry =
    Inr ((entry(''checked_at'' \<mapsto> PStr (utcnow_iso env @ ''Z'')))
           (''status'' \<mapsto> PStr (fst (classify url (fst (request_link env url)))),
            ''status_code'' \<mapsto> fst (snd (classify url (fst (request_link env url)))),
            ''final_url'' \<mapsto> PStr (snd (snd (classify url (fst (request_link env url)))))),
         snd (request_link env url))"
  using assms by (simp add: check_link_def check_link_with_unfold [of entry url])

lemma check_link_print_exn:
  assumes "entry ''url'' = Some (PStr url)"
    and "stdout_print env (progress_line (fst (classify url (fst (request_link env url))))
           (fst (snd (classify url (fst (request_link env url))))) url) = Some e"
  shows "check_link env entry = Inl e"
  using assms by (simp add: check_link_def check_link_with_unfold [of entry url])

lemma check_link_returns:
  assumes "entry ''url'' = Some (PStr url)"
    and "stdout_print env = (\<lambda>line. None)"
  shows "check_link env entry =
    Inr ((entry(''checked_at'' \<mapsto> PStr (utcnow_iso env @ ''Z'')))
           (''status'' \<mapsto> PStr (fst (classify url (fst (request_link env url)))),
            ''status_code'' \<mapsto> fst (snd (classify url (fst (request_link env url)))),
            ''final_url'' \<mapsto> PStr (snd (snd (classify url (fst (request_link env url)))))),
         snd (request_link env url))"
  using assms by (simp add: check_link_printed [of entry url env])

text \<open>
  Every outcome of the two HTTP calls, a response or any exception, is turned into a
  result with one of the five statuses; the result is returned when the progress line
  has been printed.
\<close>

lemma check_link_http_failures_converted:
  assumes "entry ''url'' = Some (PStr url)"
    and "stdout_print env = (\<lambda>line. None)"
  shows "\<exists>result calls s. check_link env entry = Inr (result, calls)
           \<and> result ''status'' = Some (PStr s) \<and> s \<in> set statuses"
  using classify_status [of url "fst (request_link env url)"]
  using assms by (simp add: check_link_returns [of entry url env])

lemma example_entry_url: "example_entry site url ''url'' = Some (PStr url)"
  by (simp add: example_entry_def)

lemma example_env_print: "stdout_print example_env = (\<lambda>line. None)"
  by (simp add: example_env_def)

lemmas check_link_example =
  check_link_returns [of "example_entry site url" url env, OF example_entry_url] for site url env

text \<open>
  Every progress line holds an icon, and no icon is in Latin-1: on a standard output
  with that encoding \<open>check_link\<close> raises for every link.
\<close>

lemma progress_line_not_latin1:
  assumes "status \<in> set statuses"
  shows "latin1_print (progress_line status status_code url) = Some UnicodeEncodeError"
  using assms
  by (auto simp add: statuses_def latin1_print_def progress_line_def icon_get_def icon_def)

lemma check_link_latin1:
  assumes "entry ''url'' = Some (PStr url)" and "stdout_print env = latin1_print"
  shows "check_link env entry = Inl UnicodeEncodeError"
  using assms classify_status [of url "fst (request_link env url)"]
  by (simp add: check_link_print_exn [of entry url env] progress_line_not_latin1)

text \<open>
  Claim C1, on a standard output whose encoding is Latin-1. HEAD of
  \<open>https://example.com/ok\<close> answers 200 and the link is classified OK; the progress line
  holds the icon U+2705, \<open>print\<close> raises \<open>UnicodeEncodeError\<close>, and the exception
  leaves \<open>check_link\<close>, which is after its handlers: no result is returned.
  \<open>check_all_links\<close> has no handler either and raises it in turn.
\<close>

theorem check_link_raises_on_print:
  "request_link latin1_env ''https://example.com/ok''
     = (Inr \<lparr>r_url = ''https://example.com/ok'', r_status_code = 200\<rparr>,
        [Request HEAD ''https://example.com/ok'' TIMEOUT True])
   \<and> classify ''https://example.com/ok''
        (Inr \<lparr>r_url = ''https://example.com/ok'', r_status_code = 200\<rparr>)
     = (''OK'', PInt 200, [])
   \<and> stdout_print latin1_env (progress_line ''OK'' (PInt 200) ''https://example.com/ok'')
     = Some UnicodeEncodeError
   \<and> check_link latin1_env (example_entry ''Eyehike'' ''https://example.com/ok'')
     = Inl UnicodeEncodeError
   \<and> check_all_links latin1_env (\<lambda>ls. ls) [example_entry ''Eyehike'' ''https://example.com/ok'']
     = Inl UnicodeEncodeError"
proof -
  have req: "request_link latin1_env ''https://example.com/ok''
     = (Inr \<lparr>r_url = ''https://example.com/ok'', r_status_code = 200\<rparr>,
        [Request HEAD ''https://example.com/ok'' TIMEOUT True])"
    by (simp add: request_link_def latin1_env_def example_env_def)
  have cl: "classify ''https://example.com/ok''
        (Inr \<lparr>r_url = ''https://example.com/ok'', r_status_code = 200\<rparr>)
     = (''OK'', PInt 200, [])"
    by (simp add: classify_def)
  have pr: "stdout_print latin1_env (progress_line ''OK'' (PInt 200) ''https://example.com/ok'')
     = Some UnicodeEncodeError"
    by (simp add: latin1_env_def progress_line_not_latin1 statuses_def)
  have run: "check_link latin1_env (example_entry ''Eyehike'' ''https://example.com/ok'')
     = Inl UnicodeEncodeError"
    by (rule check_link_print_exn [of _ "''https://example.com/ok''"])
      (simp_all add: example_entry_url req cl pr)
  have "check_all_links latin1_env (\<lambda>ls. ls) [example_entry ''Eyehike'' ''https://example.com/ok'']
     = Inl UnicodeEncodeError"
    by (simp add: check_all_links_def run)
  with req cl pr run show ?thesis by simp
qed

subsection \<open>Classification of exceptions\<close>

text \<open>
  What the three handlers do, in terms of the classes of the exception: a
  \<open>ConnectionError\<close> is BROKEN whether or not it is also a \<open>Timeout\<close>.
\<close>

lemma classify_exception:
  "classify url (Inl e) =
     (if is_ConnectionError e then (''BROKEN'', PStr ''Connection Error'', [])
      else if is_Timeout e then (''TIMEOUT'', PStr ''Timeout'', [])
      else (''ERROR'', PStr (take 60 (exn_str e)), []))"
  by (simp add: classify_def)

lemma classify_error_capped:
  "\<not> is_ConnectionError e \<Longrightarrow> \<not> is_Timeout e \<Longrightarrow>
     \<exists>d. classify url (Inl e) = (''ERROR'', PStr d, []) \<and> length d \<le> 60"
  by (simp add: classify_def)

lemma check_link_read_timeout:
  "check_link example_env (example_entry ''Eyehike'' ''https://example.com/slow'') =
     Inr ((example_entry ''Eyehike'' ''https://example.com/slow'')
            (''checked_at'' \<mapsto> PStr ''2024-01-01T08:00:00Z'',
             ''status'' \<mapsto> PStr ''TIMEOUT'',
             ''status_code'' \<mapsto> PStr ''Timeout'',
             ''final_url'' \<mapsto> PStr []),
          [Request HEAD ''https://example.com/slow'' TIMEOUT True])"
  by (simp add: check_link_example request_link_def classify_def
      example_env_def ReadTimeout_def)

text \<open>
  Claim C2, at a link whose server does not accept the connection within the timeout:
  \<open>requests.head\<close> raises \<open>ConnectTimeout\<close>, which is a timeout, and the first handler
  (\<open>except ConnectionError\<close>) takes it. The result is BROKEN with status code
  "Connection Error", not TIMEOUT with "Timeout".
\<close>

theorem check_link_connect_timeout:
  "http_head example_env ''https://example.com/unreachable''
     = Inl (ConnectTimeout ''Connection to example.com timed out.'')
   \<and> is_Timeout (ConnectTimeout ''Connection to example.com timed out.'')
   \<and> check_link example_env (example_entry ''Eyehike'' ''https://example.com/unreachable'') =
     Inr ((example_entry ''Eyehike'' ''https://example.com/unreachable'')
            (''checked_at'' \<mapsto> PStr ''2024-01-01T08:00:00Z'',
             ''status'' \<mapsto> PStr ''BROKEN'',
             ''status_code'' \<mapsto> PStr ''Connection Error'',
             ''final_url'' \<mapsto> PStr []),
          [Request HEAD ''https://example.com/unreachable'' TIMEOUT True])"
  by (simp add: check_link_example request_link_def classify_def
      example_env_def ConnectTimeout_def)

subsection \<open>Redirects\<close>

lemma dropWhile_replicate_same:
  "dropWhile (\<lambda>c. c = x) (replicate n x @ ys) = dropWhile (\<lambda>c. c = x) ys"
  by (induction n) simp_all

lemma rstrip_slash_replicate: "rstrip_slash (s @ replicate n (CHR ''/'')) = rstrip_slash s"
  by (simp add: rstrip_slash_def dropWhile_replicate_same)

lemma rstrip_slash_decompose: "\<exists>n. s = rstrip_slash s @ replicate n (CHR ''/'')"
proof -
  have "rev s = takeWhile (\<lambda>c. c = CHR ''/'') (rev s) @ dropWhile (\<lambda>c. c = CHR ''/'') (rev s)"
    by simp
  then have "s = rstrip_slash s @ rev (takeWhile (\<lambda>c. c = CHR ''/'') (rev s))"
    unfolding rstrip_slash_def by (metis rev_append rev_rev_ident)
  moreover have "rev (takeWhile (\<lambda>c. c = CHR ''/'') (rev s))
      = replicate (length (takeWhile (\<lambda>c. c = CHR ''/'') (rev s))) (CHR ''/'')"
  proof -
    have "\<forall>y\<in>set (rev (takeWhile (\<lambda>c. c = CHR ''/'') (rev s))). y = CHR ''/''"
      by (auto dest: set_takeWhileD)
    then have "replicate (length (rev (takeWhile (\<lambda>c. c = CHR ''/'') (rev s)))) (CHR ''/'')
        = rev (takeWhile (\<lambda>c. c = CHR ''/'') (rev s))"
      by (rule replicate_length_same)
    then show ?thesis by simp
  qed
  ultimately show ?thesis by metis
qed

text \<open>Two URLs have the same \<open>rstrip("/")\<close> exactly when they differ in trailing slashes only.\<close>

lemma rstrip_slash_eq_iff:
  "rstrip_slash s = rstrip_slash t
     \<longleftrightarrow> (\<exists>m n. s @ replicate m (CHR ''/'') = t @ replicate n (CHR ''/''))"
proof
  assume eq: "rstrip_slash s = rstrip_slash t"
  obtain a where a: "s = rstrip_slash s @ replicate a (CHR ''/'')"
    using rstrip_slash_decompose by blast
  obtain b where b: "t = rstrip_slash t @ replicate b (CHR ''/'')"
    using rstrip_slash_decompose by blast
  have "s @ replicate b (CHR ''/'') = rstrip_slash s @ replicate (a + b) (CHR ''/'')"
    by (subst a) (simp add: replicate_add)
  moreover have "t @ replicate a (CHR ''/'') = rstrip_slash t @ replicate (a + b) (CHR ''/'')"
    by (subst b) (simp add: replicate_add [symmetric] add.commute)
  ultimately show "\<exists>m n. s @ replicate m (CHR ''/'') = t @ replicate n (CHR ''/'')"
    using eq by metis
next
  assume "\<exists>m n. s @ replicate m (CHR ''/'') = t @ replicate n (CHR ''/'')"
  then show "rstrip_slash s = rstrip_slash t"
    by (metis rstrip_slash_replicate)
qed

text \<open>
  Claim C3 as stated fails: HEAD of \<open>https://example.com/a\<close> answers 200 at the final URL
  \<open>https://example.com/a//\<close>. With a single trailing slash ignored the final URL
  (\<open>.../a/\<close>) differs from the original (\<open>.../a\<close>), so the claim asks for REDIRECT;
  \<open>rstrip("/")\<close> removes both slashes and the result is OK with an empty \<open>final_url\<close>.
\<close>

theorem check_link_single_slash_counterexample:
  "fst (request_link example_env ''https://example.com/a'')
     = Inr \<lparr>r_url = ''https://example.com/a//'', r_status_code = 200\<rparr>
   \<and> strip_single_slash ''https://example.com/a//'' \<noteq> strip_single_slash ''https://example.com/a''
   \<and> check_link example_env (example_entry ''Eyehike'' ''https://example.com/a'') =
     Inr ((example_entry ''Eyehike'' ''https://example.com/a'')
            (''checked_at'' \<mapsto> PStr ''2024-01-01T08:00:00Z'',
             ''status'' \<mapsto> PStr ''OK'',
             ''status_code'' \<mapsto> PInt 200,
             ''final_url'' \<mapsto> PStr []),
          [Request HEAD ''https://example.com/a'' TIMEOUT True])"
  by (simp add: check_link_example request_link_def classify_def
      example_env_def rstrip_slash_def strip_single_slash_def)

text \<open>
  Claim C3, amended. Of a result that \<open>check_link\<close> returns: when the final response
  has a status code with 200 \<le> code < 400, the result is REDIRECT exactly when the final URL and the original URL differ after all
  trailing slashes are removed from both, and OK otherwise; \<open>final_url\<close> is the final
  URL in the REDIRECT case and the empty string in the OK case.
\<close>

theorem check_link_redirect_iff:
  assumes "entry ''url'' = Some (PStr url)"
    and "check_link env entry = Inr (result, calls)"
    and "fst (request_link env url) = Inr r"
    and "200 \<le> r_status_code r" and "r_status_code r < 400"
  shows "result ''status'' =
        Some (PStr (if rstrip_slash (r_url r) \<noteq> rstrip_slash url then ''REDIRECT'' else ''OK''))
    \<and> result ''status_code'' = Some (PInt (r_status_code r))
    \<and> result ''final_url'' =
        Some (PStr (if rstrip_slash (r_url r) \<noteq> rstrip_slash url then r_url r else []))"
  using check_link_fields [OF assms(1,2)] assms(3-5) by (simp add: classify_def)

theorem check_link_redirect_iff_witness:
  "example_entry ''Eyehike'' ''https://example.com/moved'' ''url''
     = Some (PStr ''https://example.com/moved'')
   \<and> check_link example_env (example_entry ''Eyehike'' ''https://example.com/moved'')
     = Inr ((example_entry ''Eyehike'' ''https://example.com/moved'')
              (''checked_at'' \<mapsto> PStr ''2024-01-01T08:00:00Z'',
               ''status'' \<mapsto> PStr ''REDIRECT'',
               ''status_code'' \<mapsto> PInt 200,
               ''final_url'' \<mapsto> PStr ''https://example.com/moved2''),
            [Request HEAD ''https://example.com/moved'' TIMEOUT True])
   \<and> fst (request_link example_env ''https://example.com/moved'')
     = Inr \<lparr>r_url = ''https://example.com/moved2'', r_status_code = 200\<rparr>
   \<and> ((example_entry ''Eyehike'' ''https://example.com/moved'')
              (''checked_at'' \<mapsto> PStr ''2024-01-01T08:00:00Z'',
               ''status'' \<mapsto> PStr ''REDIRECT'',
               ''status_code'' \<mapsto> PInt 200,
               ''final_url'' \<mapsto> PStr ''https://example.com/moved2'')) ''status''
     = Some (PStr ''REDIRECT'')
   \<and> rstrip_slash ''https://example.com/moved2'' \<noteq> rstrip_slash ''https://example.com/moved''"
proof -
  have r: "fst (request_link example_env ''https://example.com/moved'')
     = Inr \<lparr>r_url = ''https://example.com/moved2'', r_status_code = 200\<rparr>"
    by (simp add: request_link_def example_env_def)
  have run: "check_link example_env (example_entry ''Eyehike'' ''https://example.com/moved'')
     = Inr ((example_entry ''Eyehike'' ''https://example.com/moved'')
              (''checked_at'' \<mapsto> PStr ''2024-01-01T08:00:00Z'',
               ''status'' \<mapsto> PStr ''REDIRECT'',
               ''status_code'' \<mapsto> PInt 200,
               ''final_url'' \<mapsto> PStr ''https://example.com/moved2''),
            [Request HEAD ''https://example.com/moved'' TIMEOUT True])"
    by (simp add: check_link_example request_link_def classify_def
        example_env_def rstrip_slash_def)
  have d: "rstrip_slash ''https://example.com/moved2'' \<noteq> rstrip_slash ''https://example.com/moved''"
    by (simp add: rstrip_slash_def)
  show ?thesis
    using check_link_redirect_iff [OF example_entry_url run r] r run d
    by (simp add: example_entry_url)
qed

subsection \<open>Statuses and \<open>final_url\<close>\<close>

lemma classify_final_url:
  assumes "\<forall>r. attempt = Inr r \<longrightarrow> r_url r \<noteq> []"
  shows "snd (snd (classify url attempt)) \<noteq> [] \<longleftrightarrow> fst (classify url attempt) = ''REDIRECT''"
  using assms by (cases attempt) (simp_all add: classify_def Let_def)

text \<open>
  Claim C4. The \<open>status\<close> of a result of \<open>check_link\<close> is one of the five values, and
  its \<open>final_url\<close> is non-empty exactly when the status is REDIRECT. The URL of a
  response (\<open>r.url\<close>, the URL the final request was sent to) is taken to be non-empty.
\<close>

theorem check_link_status_final_url:
  assumes "entry ''url'' = Some (PStr url)"
    and "check_link env entry = Inr (result, calls)"
    and "\<forall>r. fst (request_link env url) = Inr r \<longrightarrow> r_url r \<noteq> []"
  shows "\<exists>s f. result ''status'' = Some (PStr s) \<and> s \<in> set statuses
    \<and> result ''final_url'' = Some (PStr f)
    \<and> (f \<noteq> [] \<longleftrightarrow> s = ''REDIRECT'')"
  using check_link_fields [OF assms(1,2)] classify_status [of url "fst (request_link env url)"]
    classify_final_url [OF assms(3), of url]
  by simp

theorem check_link_status_final_url_witness:
  "example_entry ''Eyehike'' ''https://example.com/moved'' ''url''
     = Some (PStr ''https://example.com/moved'')
   \<and> check_link example_env (example_entry ''Eyehike'' ''https://example.com/moved'')
     = Inr ((example_entry ''Eyehike'' ''https://example.com/moved'')
              (''checked_at'' \<mapsto> PStr ''2024-01-01T08:00:00Z'',
               ''status'' \<mapsto> PStr ''REDIRECT'',
               ''status_code'' \<mapsto> PInt 200,
               ''final_url'' \<mapsto> PStr ''https://example.com/moved2''),
            [Request HEAD ''https://example.com/moved'' TIMEOUT True])
   \<and> fst (request_link example_env ''https://example.com/moved'')
     = Inr \<lparr>r_url = ''https://example.com/moved2'', r_status_code = 200\<rparr>
   \<and> (\<exists>s f. ((example_entry ''Eyehike'' ''https://example.com/moved'')
              (''checked_at'' \<mapsto> PStr ''2024-01-01T08:00:00Z'',
               ''status'' \<mapsto> PStr ''REDIRECT'',
               ''status_code'' \<mapsto> PInt 200,
               ''final_url'' \<mapsto> PStr ''https://example.com/moved2'')) ''status'' = Some (PStr s)
         \<and> s \<in> set statuses
         \<and> ((example_entry ''Eyehike'' ''https://example.com/moved'')
              (''checked_at'' \<mapsto> PStr ''2024-01-01T08:00:00Z'',
               ''status'' \<mapsto> PStr ''REDIRECT'',
               ''status_code'' \<mapsto> PInt 200,
               ''final_url'' \<mapsto> PStr ''https://example.com/moved2'')) ''final_url'' = Some (PStr f)
         \<and> (f \<noteq> []) = (s = ''REDIRECT''))"
proof -
  have r: "fst (request_link example_env ''https://example.com/moved'')
     = Inr \<lparr>r_url = ''https://example.com/moved2'', r_status_code = 200\<rparr>"
    by (simp add: request_link_def example_env_def)
  then have nonempty: "\<forall>r. fst (request_link example_env ''https://example.com/moved'') = Inr r
      \<longrightarrow> r_url r \<noteq> []"
    by auto
  have run: "check_link example_env (example_entry ''Eyehike'' ''https://example.com/moved'')
     = Inr ((example_entry ''Eyehike'' ''https://example.com/moved'')
              (''checked_at'' \<mapsto> PStr ''2024-01-01T08:00:00Z'',
               ''status'' \<mapsto> PStr ''REDIRECT'',
               ''status_code'' \<mapsto> PInt 200,
               ''final_url'' \<mapsto> PStr ''https://example.com/moved2''),
            [Request HEAD ''https://example.com/moved'' TIMEOUT True])"
    by (simp add: check_link_example request_link_def classify_def
        example_env_def rstrip_slash_def)
  from check_link_status_final_url [OF example_entry_url run nonempty] r run
  show ?thesis
    by (simp add: example_entry_url)
qed

subsection \<open>The GET fallback\<close>

lemma request_link_no_fallback:
  assumes "http_head env url = Inr r" and "r_status_code r \<notin> {405, 403, 501}"
  shows "request_link env url = (Inr r, [Request HEAD url TIMEOUT True])"
  using assms by (simp add: request_link_def)

lemma request_link_head_raises:
  assumes "http_head env url = Inl e"
  shows "request_link env url = (Inl e, [Request HEAD url TIMEOUT True])"
  using assms by (simp add: request_link_def)




text \<open>403 to HEAD, and a GET that is redirected and ends with 200 elsewhere: REDIRECT.\<close>

lemma check_link_away:
  "check_link example_env (example_entry site ''https://example.com/away'') =
     Inr ((example_entry site ''https://example.com/away'')
            (''checked_at'' \<mapsto> PStr ''2024-01-01T08:00:00Z'',
             ''status'' \<mapsto> PStr ''REDIRECT'',
             ''status_code'' \<mapsto> PInt 200,
             ''final_url'' \<mapsto> PStr ''https://example.com/here''),
          [Request HEAD ''https://example.com/away'' TIMEOUT True,
           Request GET ''https://example.com/away'' TIMEOUT True])"
  by (simp add: check_link_example request_link_def classify_def example_env_def
      rstrip_slash_def)


subsection \<open>The argument dict is not changed\<close>

lemma check_link_store_unfold:
  assumes "entry < length h" and "(h ! entry) ''url'' = Some (PStr url)"
  shows "check_link_store env h entry =
    (case stdout_print env (progress_line (fst (classify url (fst (request_link env url))))
                                 (fst (snd (classify url (fst (request_link env url))))) url) of
       Some e \<Rightarrow> Inl e
     | None \<Rightarrow>
        Inr (h @ [((h ! entry)(''checked_at'' \<mapsto> PStr (utcnow_iso env @ ''Z'')))
                (''status'' \<mapsto> PStr (fst (classify url (fst (request_link env url)))),
                 ''status_code'' \<mapsto> fst (snd (classify url (fst (request_link env url)))),
                 ''final_url'' \<mapsto> PStr (snd (snd (classify url (fst (request_link env url))))))],
         length h, snd (request_link env url)))"
  using assms
  by (simp add: check_link_store_def dict_copy_def dict_setitem_def Let_def case_prod_beta
      split: option.split)

lemma check_link_store_returns:
  assumes "entry < length h" and "(h ! entry) ''url'' = Some (PStr url)"
    and "stdout_print env = (\<lambda>line. None)"
  shows "check_link_store env h entry =
    Inr (h @ [((h ! entry)(''checked_at'' \<mapsto> PStr (utcnow_iso env @ ''Z'')))
                (''status'' \<mapsto> PStr (fst (classify url (fst (request_link env url)))),
                 ''status_code'' \<mapsto> fst (snd (classify url (fst (request_link env url)))),
                 ''final_url'' \<mapsto> PStr (snd (snd (classify url (fst (request_link env url))))))],
         length h, snd (request_link env url))"
  by (simp add: check_link_store_unfold [OF assms(1,2)] assms(3))

lemma check_link_store_url:
  assumes "check_link_store env h entry = Inr (h', result, calls)"
  shows "entry < length h \<and> (\<exists>url. (h ! entry) ''url'' = Some (PStr url))"
  using assms
  by (auto simp add: check_link_store_def split: if_splits option.splits pyval.splits)

text \<open>
  Claim C10. \<open>check_link\<close> allocates a new dict and writes only to it: every object of
  the store, the argument among them, is as before. The new dict has the argument's
  value under every key other than \<open>checked_at\<close>, \<open>status\<close>, \<open>status_code\<close> and
  \<open>final_url\<close>, and its keys are those of the argument and these four. It is the dict the
  store-free model \<open>check_link\<close> returns.
\<close>

theorem check_link_store_frame:
  assumes "check_link_store env h entry = Inr (h', result, calls)"
  shows "entry < length h \<and> result = length h \<and> length h' = Suc (length h)
    \<and> take (length h) h' = h
    \<and> h' ! entry = h ! entry
    \<and> (\<forall>k. k \<notin> outcome_keys \<longrightarrow> (h' ! result) k = (h ! entry) k)
    \<and> dom (h' ! result) = dom (h ! entry) \<union> outcome_keys
    \<and> check_link env (h ! entry) = Inr (h' ! result, calls)"
proof -
  from check_link_store_url [OF assms] obtain url
    where lt: "entry < length h" and url: "(h ! entry) ''url'' = Some (PStr url)"
    by blast
  from assms have printed: "stdout_print env
        (progress_line (fst (classify url (fst (request_link env url))))
           (fst (snd (classify url (fst (request_link env url))))) url) = None"
    and eq: "h' = h @ [h' ! length h]" "result = length h" "calls = snd (request_link env url)"
    and new: "h' ! length h =
       ((h ! entry)(''checked_at'' \<mapsto> PStr (utcnow_iso env @ ''Z'')))
         (''status'' \<mapsto> PStr (fst (classify url (fst (request_link env url)))),
          ''status_code'' \<mapsto> fst (snd (classify url (fst (request_link env url)))),
          ''final_url'' \<mapsto> PStr (snd (snd (classify url (fst (request_link env url))))))"
    by (auto simp add: check_link_store_unfold [OF lt url] split: option.splits)
  have len: "length h' = Suc (length h)"
    by (subst eq(1)) simp
  have tk: "take (length h) h' = h"
    by (subst eq(1)) simp
  have old: "h' ! entry = h ! entry"
    by (subst eq(1)) (simp add: nth_append lt)
  have frame: "\<forall>k. k \<notin> outcome_keys \<longrightarrow> (h' ! result) k = (h ! entry) k"
    by (simp add: eq(2) new outcome_keys_def)
  have keys: "dom (h' ! result) = dom (h ! entry) \<union> outcome_keys"
    by (auto simp add: eq(2) new outcome_keys_def)
  have pure: "check_link env (h ! entry) = Inr (h' ! result, calls)"
    by (simp add: check_link_printed [of "h ! entry" url env] url printed eq(2,3) new)
  from lt eq(2) len tk old frame keys pure show ?thesis by blast
qed

theorem check_link_store_frame_witness:
  "check_link_store example_env
       [example_entry ''Eyehike'' ''https://example.com/gone''] 0
     = Inr ([example_entry ''Eyehike'' ''https://example.com/gone'',
             (example_entry ''Eyehike'' ''https://example.com/gone'')
               (''checked_at'' \<mapsto> PStr ''2024-01-01T08:00:00Z'',
                ''status'' \<mapsto> PStr ''BROKEN'',
                ''status_code'' \<mapsto> PInt 404,
                ''final_url'' \<mapsto> PStr [])],
            1, [Request HEAD ''https://example.com/gone'' TIMEOUT True])
   \<and> check_link example_env (example_entry ''Eyehike'' ''https://example.com/gone'')
     = Inr ((example_entry ''Eyehike'' ''https://example.com/gone'')
               (''checked_at'' \<mapsto> PStr ''2024-01-01T08:00:00Z'',
                ''status'' \<mapsto> PStr ''BROKEN'',
                ''status_code'' \<mapsto> PInt 404,
                ''final_url'' \<mapsto> PStr []),
            [Request HEAD ''https://example.com/gone'' TIMEOUT True])"
proof -
  have run: "check_link_store example_env
       [example_entry ''Eyehike'' ''https://example.com/gone''] 0
     = Inr ([example_entry ''Eyehike'' ''https://example.com/gone'',
             (example_entry ''Eyehike'' ''https://example.com/gone'')
               (''checked_at'' \<mapsto> PStr ''2024-01-01T08:00:00Z'',
                ''status'' \<mapsto> PStr ''BROKEN'',
                ''status_code'' \<mapsto> PInt 404,
                ''final_url'' \<mapsto> PStr [])],
            1, [Request HEAD ''https://example.com/gone'' TIMEOUT True])"
    by (simp add: check_link_store_returns [of 0 _ "''https://example.com/gone''"]
        example_entry_url example_env_print request_link_def classify_def example_env_def)
  show ?thesis
    using check_link_store_frame [OF run] run by simp
qed

section \<open>Properties of the verification orchestrator\<close>

lemma collect_Inr: "collect xs = Inr ys \<Longrightarrow> xs = map Inr ys"
proof (induction xs arbitrary: ys)
  case Nil
  then show ?case by simp
next
  case (Cons x xs)
  then show ?case
    by (cases x) (auto split: sum.splits)
qed

lemma check_link_keeps_site:
  assumes "check_link env l = Inr (r, calls)"
  shows "site_key r = site_key l \<and> r ''status'' \<noteq> None"
  using assms
  by (auto simp add: check_link_def check_link_with_def site_key_def Let_def
      split: option.splits pyval.splits prod.splits)

lemma collect_check_link:
  assumes "collect (map (check_link env) ls) = Inr results"
  shows "map (\<lambda>r. site_key (fst r)) results = map site_key ls
    \<and> list_all (\<lambda>r. fst r ''status'' \<noteq> None) results"
  using assms
proof (induction ls arbitrary: results)
  case Nil
  then show ?case by simp
next
  case (Cons l ls)
  from Cons.prems obtain r rest where r: "check_link env l = Inr r"
    and rest: "collect (map (check_link env) ls) = Inr rest" and results: "results = r # rest"
    by (auto split: sum.splits elim: collect.elims)
  from check_link_keeps_site [of env l "fst r" "snd r"] r
  have "site_key (fst r) = site_key l \<and> fst r ''status'' \<noteq> None" by simp
  with Cons.IH [OF rest] results show ?case by simp
qed

lemma sort_results_strings:
  assumes "list_all (\<lambda>r. r ''status'' \<noteq> None) results"
    and "list_all (\<lambda>r. is_str (site_key r)) results"
  shows "sort_results results = Inr (sort_key (\<lambda>r. (str_of (site_key r), severity r)) results)"
proof -
  have "\<not> list_ex (\<lambda>r. r ''status'' = None) results"
    using assms(1) by (auto simp add: list_all_iff list_ex_iff)
  then show ?thesis
    using assms(2) by (simp add: sort_results_def)
qed

lemma sorted_key_law:
  fixes key :: "'a \<Rightarrow> string \<times> nat"
  assumes "sorted (map key rs)" and "i < j" and "j < length rs"
    and "fst (key (rs ! i)) = fst (key (rs ! j))"
    and "snd (key (rs ! i)) \<noteq> snd (key (rs ! j))"
  shows "snd (key (rs ! i)) < snd (key (rs ! j))"
proof -
  have "map key rs ! i \<le> map key rs ! j"
    using assms(1-3) by (intro sorted_nth_mono) simp_all
  then have "key (rs ! i) \<le> key (rs ! j)"
    using assms(2,3) by simp
  then have "snd (key (rs ! i)) \<le> snd (key (rs ! j))"
    using assms(4) by (cases "key (rs ! i)"; cases "key (rs ! j)") (simp add: less_eq_prod_def)
  with assms(5) show ?thesis by simp
qed

lemma severity_values:
  "map (\<lambda>s. severity [''status'' \<mapsto> PStr s]) [''BROKEN'', ''TIMEOUT'', ''ERROR'', ''REDIRECT'', ''OK'']
     = [0, 1, 2, 3, 4]"
  by (simp add: severity_def order_def)

text \<open>
  The webcam script sorts by severity alone, stably; its results carry no \<open>site\<close> key,
  and then the sitewide sort gives the same list.
\<close>

lemma sort_results_webcam_sorted:
  assumes "sort_results_webcam results = Inr rs"
  shows "sorted (map severity rs) \<and> mset rs = mset results
    \<and> (\<forall>k. filter (\<lambda>r. severity r = k) rs = filter (\<lambda>r. severity r = k) results)"
  using assms
  by (auto simp add: sort_results_webcam_def sort_key_stable split: if_splits)

lemma insort_key_same_site:
  fixes g :: "'a \<Rightarrow> string" and f :: "'a \<Rightarrow> nat"
  assumes "g x = c" and "\<forall>y\<in>set ys. g y = c"
  shows "insort_key (\<lambda>r. (g r, f r)) x ys = insort_key f x ys"
  using assms by (induction ys) (simp_all add: less_eq_prod_def)

lemma sort_key_same_site:
  fixes g :: "'a \<Rightarrow> string" and f :: "'a \<Rightarrow> nat"
  assumes "\<forall>x\<in>set xs. g x = c"
  shows "sort_key (\<lambda>r. (g r, f r)) xs = sort_key f xs"
  using assms
proof (induction xs)
  case Nil
  then show ?case by simp
next
  case (Cons x xs)
  then have "sort_key (\<lambda>r. (g r, f r)) xs = sort_key f xs" by simp
  moreover have "insort_key (\<lambda>r. (g r, f r)) x (sort_key f xs) = insort_key f x (sort_key f xs)"
    using Cons.prems by (intro insort_key_same_site [of g x c]) simp_all
  ultimately show ?case by simp
qed

lemma sort_results_no_site:
  assumes "list_all (\<lambda>r. r ''site'' = None) results"
  shows "sort_results results = sort_results_webcam results"
proof -
  have s: "list_all (\<lambda>r. is_str (site_key r)) results"
    using assms by (auto simp add: list_all_iff site_key_def is_str_def)
  have "\<forall>r\<in>set results. str_of (site_key r) = []"
    using assms by (auto simp add: list_all_iff site_key_def str_of_def)
  then have "sort_key (\<lambda>r. (str_of (site_key r), severity r)) results
      = sort_key severity results"
    by (rule sort_key_same_site)
  then show ?thesis
    using s by (simp add: sort_results_def sort_results_webcam_def)
qed

lemma check_link_with_site:
  assumes "check_link_with line env l = Inr (r, calls)"
  shows "r ''site'' = l ''site''"
  using assms
  by (auto simp add: check_link_with_def Let_def
      split: option.splits pyval.splits prod.splits)

lemma collect_check_link_site:
  assumes "collect (map (check_link_with line env) ls) = Inr results"
    and "list_all (\<lambda>l. l ''site'' = None) ls"
  shows "list_all (\<lambda>r. r ''site'' = None) (map fst results)"
  using assms
proof (induction ls arbitrary: results)
  case Nil
  then show ?case by simp
next
  case (Cons l ls)
  from Cons.prems(1) obtain r rest where r: "check_link_with line env l = Inr r"
    and rest: "collect (map (check_link_with line env) ls) = Inr rest"
    and results: "results = r # rest"
    by (auto split: sum.splits elim: collect.elims)
  from check_link_with_site [of line env l "fst r" "snd r"] r
  have "fst r ''site'' = l ''site''" by simp
  with Cons.IH [OF rest] Cons.prems(2) results show ?case by simp
qed

text \<open>
  The links of the webcam script have no \<open>site\<close> key (\<open>scrape_links\<close> builds them with
  \<open>url\<close>, \<open>label\<close> and \<open>section\<close>); on such links the sort of the webcam script orders
  the results as the sort of the sitewide script does.
\<close>

lemma check_all_links_webcam_agrees:
  assumes "list_all (\<lambda>l. l ''site'' = None) (completed links)"
  shows "check_all_links_webcam env completed links =
    (case collect (map (check_link_webcam env) (completed links)) of
       Inl e \<Rightarrow> Inl e
     | Inr results \<Rightarrow> sort_results (map fst results))"
proof (cases "collect (map (check_link_webcam env) (completed links))")
  case (Inl e)
  then show ?thesis
    by (simp add: check_all_links_webcam_def)
next
  case (Inr results)
  then have "collect (map (check_link_with progress_line_webcam env) (completed links))
      = Inr results"
    by (simp add: check_link_webcam_def)
  from collect_check_link_site [OF this assms]
  have "sort_results (map fst results) = sort_results_webcam (map fst results)"
    by (rule sort_results_no_site)
  with Inr show ?thesis
    by (simp add: check_all_links_webcam_def)
qed

text \<open>The list the webcam script returns: the results, stably sorted by severity rank.\<close>

lemma check_all_links_webcam_sorted:
  assumes "check_all_links_webcam env completed links = Inr rs"
  shows "\<exists>results. collect (map (check_link_webcam env) (completed links)) = Inr results
    \<and> mset rs = mset (map fst results)
    \<and> sorted (map severity rs)
    \<and> (\<forall>k. filter (\<lambda>r. severity r = k) rs = filter (\<lambda>r. severity r = k) (map fst results))"
proof -
  from assms obtain results
    where results: "collect (map (check_link_webcam env) (completed links)) = Inr results"
      and sorted_rs: "sort_results_webcam (map fst results) = Inr rs"
    by (auto simp add: check_all_links_webcam_def split: sum.splits)
  from sort_results_webcam_sorted [OF sorted_rs] results show ?thesis
    by simp
qed

text \<open>
  Claim C6. For links whose site name is a string (or absent), the list returned by
  \<open>check_all_links\<close> is a rearrangement of the results in completion order, sorted by
  the pair (site name, severity rank) in lexicographic order, with BROKEN, TIMEOUT,
  ERROR, REDIRECT, OK ranked 0 to 4; results with the same pair keep their relative
  order; and of two results of one site with different ranks the one with the lower
  rank comes first.
\<close>

theorem check_all_links_sorted:
  assumes "check_all_links env completed links = Inr rs"
    and "list_all (\<lambda>l. is_str (site_key l)) (completed links)"
  shows "\<exists>results. collect (map (check_link env) (completed links)) = Inr results
    \<and> mset rs = mset (map fst results)
    \<and> sorted (map (\<lambda>r. (str_of (site_key r), severity r)) rs)
    \<and> (\<forall>k. filter (\<lambda>r. (str_of (site_key r), severity r) = k) rs
            = filter (\<lambda>r. (str_of (site_key r), severity r) = k) (map fst results))
    \<and> (\<forall>i j. i < j \<longrightarrow> j < length rs
          \<longrightarrow> str_of (site_key (rs ! i)) = str_of (site_key (rs ! j))
          \<longrightarrow> severity (rs ! i) \<noteq> severity (rs ! j)
          \<longrightarrow> severity (rs ! i) < severity (rs ! j))
    \<and> map (\<lambda>s. severity [''status'' \<mapsto> PStr s])
          [''BROKEN'', ''TIMEOUT'', ''ERROR'', ''REDIRECT'', ''OK''] = [0, 1, 2, 3, 4]"
proof -
  from assms(1) obtain results
    where results: "collect (map (check_link env) (completed links)) = Inr results"
      and sorted_rs: "sort_results (map fst results) = Inr rs"
    by (auto simp add: check_all_links_def split: sum.splits)
  from collect_check_link [OF results]
  have sites: "map (\<lambda>r. site_key (fst r)) results = map site_key (completed links)"
    and status: "list_all (\<lambda>r. fst r ''status'' \<noteq> None) results"
    by simp_all
  have "list_all is_str (map site_key (completed links))"
    using assms(2) by (simp add: list_all_iff)
  then have "list_all is_str (map (\<lambda>r. site_key (fst r)) results)"
    using sites by simp
  then have str: "list_all (\<lambda>r. is_str (site_key r)) (map fst results)"
    by (simp add: list_all_iff)
  have st: "list_all (\<lambda>r. r ''status'' \<noteq> None) (map fst results)"
    using status by (simp add: list_all_iff)
  let ?key = "\<lambda>r. (str_of (site_key r), severity r)"
  have rs: "rs = sort_key ?key (map fst results)"
    using sort_results_strings [OF st str] sorted_rs by simp
  have perm: "mset rs = mset (map fst results)"
    by (simp add: rs)
  have srt: "sorted (map ?key rs)"
    by (simp add: rs)
  have stable: "\<forall>k. filter (\<lambda>r. ?key r = k) rs = filter (\<lambda>r. ?key r = k) (map fst results)"
    by (simp add: rs sort_key_stable)
  have law: "\<forall>i j. i < j \<longrightarrow> j < length rs
          \<longrightarrow> str_of (site_key (rs ! i)) = str_of (site_key (rs ! j))
          \<longrightarrow> severity (rs ! i) \<noteq> severity (rs ! j)
          \<longrightarrow> severity (rs ! i) < severity (rs ! j)"
    using sorted_key_law [of ?key rs] srt by simp
  show ?thesis
  proof (intro exI [of _ results] conjI)
    show "collect (map (check_link env) (completed links)) = Inr results" by (fact results)
    show "mset rs = mset (map fst results)" by (fact perm)
    show "sorted (map ?key rs)" by (fact srt)
    show "\<forall>k. filter (\<lambda>r. ?key r = k) rs = filter (\<lambda>r. ?key r = k) (map fst results)"
      by (fact stable)
    show "\<forall>i j. i < j \<longrightarrow> j < length rs
          \<longrightarrow> str_of (site_key (rs ! i)) = str_of (site_key (rs ! j))
          \<longrightarrow> severity (rs ! i) \<noteq> severity (rs ! j)
          \<longrightarrow> severity (rs ! i) < severity (rs ! j)" by (fact law)
    show "map (\<lambda>s. severity [''status'' \<mapsto> PStr s])
          [''BROKEN'', ''TIMEOUT'', ''ERROR'', ''REDIRECT'', ''OK''] = [0, 1, 2, 3, 4]"
      by (fact severity_values)
  qed
qed


lemma check_link_ok:
  "check_link example_env (example_entry site ''https://example.com/ok'') =
     Inr ((example_entry site ''https://example.com/ok'')
            (''checked_at'' \<mapsto> PStr ''2024-01-01T08:00:00Z'',
             ''status'' \<mapsto> PStr ''OK'',
             ''status_code'' \<mapsto> PInt 200,
             ''final_url'' \<mapsto> PStr []),
          [Request HEAD ''https://example.com/ok'' TIMEOUT True])"
  by (simp add: check_link_example request_link_def classify_def example_env_def)

lemma check_link_gone:
  "check_link example_env (example_entry site ''https://example.com/gone'') =
     Inr ((example_entry site ''https://example.com/gone'')
            (''checked_at'' \<mapsto> PStr ''2024-01-01T08:00:00Z'',
             ''status'' \<mapsto> PStr ''BROKEN'',
             ''status_code'' \<mapsto> PInt 404,
             ''final_url'' \<mapsto> PStr []),
          [Request HEAD ''https://example.com/gone'' TIMEOUT True])"
  by (simp add: check_link_example request_link_def classify_def example_env_def)

lemma example_result_keys:
  "site_key ((example_entry site url)(''checked_at'' \<mapsto> t, ''status'' \<mapsto> PStr s,
      ''status_code'' \<mapsto> c, ''final_url'' \<mapsto> f)) = PStr site"
  "severity ((example_entry site url)(''checked_at'' \<mapsto> t, ''status'' \<mapsto> PStr s,
      ''status_code'' \<mapsto> c, ''final_url'' \<mapsto> f))
     = (case map_of order s of Some n \<Rightarrow> n | None \<Rightarrow> 5)"
  "((example_entry site url)(''checked_at'' \<mapsto> t, ''status'' \<mapsto> PStr s,
      ''status_code'' \<mapsto> c, ''final_url'' \<mapsto> f)) ''status'' = Some (PStr s)"
  "site_key (example_entry site url) = PStr site"
  by (simp_all add: site_key_def severity_def example_entry_def)

theorem check_all_links_sorted_witness:
  "check_all_links example_env (\<lambda>ls. ls)
       [example_entry ''Unscripted6160'' ''https://example.com/ok'',
        example_entry ''Eyehike'' ''https://example.com/ok'',
        example_entry ''Eyehike'' ''https://example.com/gone'']
     = Inr [(example_entry ''Eyehike'' ''https://example.com/gone'')
              (''checked_at'' \<mapsto> PStr ''2024-01-01T08:00:00Z'',
               ''status'' \<mapsto> PStr ''BROKEN'',
               ''status_code'' \<mapsto> PInt 404,
               ''final_url'' \<mapsto> PStr []),
            (example_entry ''Eyehike'' ''https://example.com/ok'')
              (''checked_at'' \<mapsto> PStr ''2024-01-01T08:00:00Z'',
               ''status'' \<mapsto> PStr ''OK'',
               ''status_code'' \<mapsto> PInt 200,
               ''final_url'' \<mapsto> PStr []),
            (example_entry ''Unscripted6160'' ''https://example.com/ok'')
              (''checked_at'' \<mapsto> PStr ''2024-01-01T08:00:00Z'',
               ''status'' \<mapsto> PStr ''OK'',
               ''status_code'' \<mapsto> PInt 200,
               ''final_url'' \<mapsto> PStr [])]
   \<and> list_all (\<lambda>l. is_str (site_key l))
       [example_entry ''Unscripted6160'' ''https://example.com/ok'',
        example_entry ''Eyehike'' ''https://example.com/ok'',
        example_entry ''Eyehike'' ''https://example.com/gone'']
   \<and> sorted (map (\<lambda>r. (str_of (site_key r), severity r))
        [(example_entry ''Eyehike'' ''https://example.com/gone'')
              (''checked_at'' \<mapsto> PStr ''2024-01-01T08:00:00Z'',
               ''status'' \<mapsto> PStr ''BROKEN'',
               ''status_code'' \<mapsto> PInt 404,
               ''final_url'' \<mapsto> PStr []),
            (example_entry ''Eyehike'' ''https://example.com/ok'')
              (''checked_at'' \<mapsto> PStr ''2024-01-01T08:00:00Z'',
               ''status'' \<mapsto> PStr ''OK'',
               ''status_code'' \<mapsto> PInt 200,
               ''final_url'' \<mapsto> PStr []),
            (example_entry ''Unscripted6160'' ''https://example.com/ok'')
              (''checked_at'' \<mapsto> PStr ''2024-01-01T08:00:00Z'',
               ''status'' \<mapsto> PStr ''OK'',
               ''status_code'' \<mapsto> PInt 200,
               ''final_url'' \<mapsto> PStr [])])"
proof -
  have hyp: "list_all (\<lambda>l. is_str (site_key l))
       [example_entry ''Unscripted6160'' ''https://example.com/ok'',
        example_entry ''Eyehike'' ''https://example.com/ok'',
        example_entry ''Eyehike'' ''https://example.com/gone'']"
    by (simp add: example_result_keys is_str_def)
  have run: "check_all_links example_env (\<lambda>ls. ls)
       [example_entry ''Unscripted6160'' ''https://example.com/ok'',
        example_entry ''Eyehike'' ''https://example.com/ok'',
        example_entry ''Eyehike'' ''https://example.com/gone'']
     = Inr [(example_entry ''Eyehike'' ''https://example.com/gone'')
              (''checked_at'' \<mapsto> PStr ''2024-01-01T08:00:00Z'',
               ''status'' \<mapsto> PStr ''BROKEN'',
               ''status_code'' \<mapsto> PInt 404,
               ''final_url'' \<mapsto> PStr []),
            (example_entry ''Eyehike'' ''https://example.com/ok'')
              (''checked_at'' \<mapsto> PStr ''2024-01-01T08:00:00Z'',
               ''status'' \<mapsto> PStr ''OK'',
               ''status_code'' \<mapsto> PInt 200,
               ''final_url'' \<mapsto> PStr []),
            (example_entry ''Unscripted6160'' ''https://example.com/ok'')
              (''checked_at'' \<mapsto> PStr ''2024-01-01T08:00:00Z'',
               ''status'' \<mapsto> PStr ''OK'',
               ''status_code'' \<mapsto> PInt 200,
               ''final_url'' \<mapsto> PStr [])]"
    by (simp add: check_all_links_def check_link_ok check_link_gone sort_results_def
        example_result_keys is_str_def str_of_def order_def less_eq_prod_def)
  from check_all_links_sorted [OF run hyp] run hyp show ?thesis
    by blast
qed

section \<open>Properties of the seed resolver\<close>

lemma parse_sitemap_index_fetch_fails:
  assumes "fetch_text w sitemap_url = Inl e"
  shows "parse_sitemap_index w sitemap_url filter_list = Inr []"
  using assms by (simp add: parse_sitemap_index_def)

lemma fetch_sub_sitemap_fails:
  assumes "fetch_text w sub_url = Inl e
    \<or> (\<exists>text. fetch_text w sub_url = Inr text \<and> parse_xml w text = None)"
  shows "fetch_sub_sitemap w sub_url = []"
  using assms by (auto simp add: fetch_sub_sitemap_def)

text \<open>
  When the index is fetched and parsed, the result is the concatenation of what each
  matching sub-sitemap gives; a sub-sitemap that fails gives the empty list and the
  others are kept.
\<close>

lemma parse_sitemap_index_partial:
  assumes "fetch_text w sitemap_url = Inr text" and "parse_xml w text = Some root"
  shows "parse_sitemap_index w sitemap_url filter_list =
    Inr (concat (map (fetch_sub_sitemap w)
      (filter (\<lambda>loc. list_ex (\<lambda>f. sublist f loc) filter_list)
        (map (\<lambda>t. case t of None \<Rightarrow> [] | Some l \<Rightarrow> l) (sitemap_locs root)))))"
  using assms by (simp add: parse_sitemap_index_def)

lemma sublist_post_sitemap:
  "sublist ''post-sitemap.xml'' ''https://www.eyehike.com/post-sitemap.xml''"
  unfolding sublist_def
  by (intro exI [of _ "''https://www.eyehike.com/''"] exI [of _ "[]"]) simp

lemma not_sublist_category:
  "\<not> sublist ''post-sitemap.xml'' ''https://www.eyehike.com/category-sitemap.xml''"
  "\<not> sublist ''page-sitemap.xml'' ''https://www.eyehike.com/category-sitemap.xml''"
  "\<not> sublist ''page-sitemap.xml'' ''https://www.eyehike.com/post-sitemap.xml''"
  by code_simp+

lemma parse_sitemap_index_example:
  "parse_sitemap_index example_web ''https://www.eyehike.com/sitemap_index.xml''
     [''post-sitemap.xml'', ''page-sitemap.xml'']
   = Inr [''https://www.eyehike.com/p1'', ''https://www.eyehike.com/p2'']"
  by (simp add: parse_sitemap_index_def fetch_sub_sitemap_def example_web_def
      sublist_post_sitemap not_sublist_category)

text \<open>
  Claim C9, at an index that is served with status 200 but is not well-formed XML: the
  fetch succeeds, \<open>ET.fromstring\<close> raises \<open>ParseError\<close> outside the \<open>try\<close>, and
  \<open>parse_sitemap_index\<close> raises instead of returning the empty list. The same document
  as a sub-sitemap is parsed inside the \<open>try\<close> of the loop and is skipped.
\<close>

theorem parse_sitemap_index_malformed_index:
  "fetch_text example_web ''https://www.eyehike.com/broken_index.xml'' = Inr ''<html><br>''
   \<and> parse_xml example_web ''<html><br>'' = None
   \<and> parse_sitemap_index example_web ''https://www.eyehike.com/broken_index.xml''
        [''post-sitemap.xml'', ''page-sitemap.xml''] = Inl ParseError
   \<and> fetch_sub_sitemap example_web ''https://www.eyehike.com/broken_index.xml'' = []"
  by (simp add: parse_sitemap_index_def fetch_sub_sitemap_def example_web_def)

section \<open>Properties of the link extractor\<close>

text \<open>What the extractors guarantee of a link: its \<open>url\<close> is a string that starts with "http".\<close>

lemma extract_loop_http:
  assumes "extract_loop w all_skip page_url page_title tags links seen = Inr out"
    and "\<forall>l\<in>set links. \<exists>href. l ''url'' = Some (PStr href) \<and> prefix ''http'' href"
  shows "\<forall>l\<in>set out. \<exists>href. l ''url'' = Some (PStr href) \<and> prefix ''http'' href"
  using assms
proof (induction tags arbitrary: links seen)
  case Nil
  then show ?case by simp
next
  case (Cons tag tags)
  show ?case
  proof (cases "prefix ''http'' (strip (a_href tag))")
    case False
    with Cons.prems(1) have "extract_loop w all_skip page_url page_title tags links seen = Inr out"
      by (simp add: Let_def)
    from Cons.IH [OF this Cons.prems(2)] show ?thesis .
  next
    case True
    from True Cons.prems(1) obtain domain where d: "domain_of w (strip (a_href tag)) = Some domain"
      by (cases "domain_of w (strip (a_href tag))") (simp_all add: Let_def)
    show ?thesis
    proof (cases "domain \<in> all_skip \<or> strip (a_href tag) \<in> seen")
      case True
      with \<open>prefix ''http'' (strip (a_href tag))\<close> d Cons.prems(1)
      have "extract_loop w all_skip page_url page_title tags links seen = Inr out"
        by (auto simp add: Let_def split: if_splits)
      from Cons.IH [OF this Cons.prems(2)] show ?thesis .
    next
      case False
      let ?label = "if take 80 (a_text tag) \<noteq> [] then take 80 (a_text tag)
                    else take 80 (strip (a_href tag))"
      let ?link = "[''url'' \<mapsto> PStr (strip (a_href tag)), ''label'' \<mapsto> PStr ?label,
                    ''page_url'' \<mapsto> PStr page_url, ''page_title'' \<mapsto> PStr page_title]"
      from False \<open>prefix ''http'' (strip (a_href tag))\<close> d Cons.prems(1)
      have run: "extract_loop w all_skip page_url page_title tags (links @ [?link])
          (insert (strip (a_href tag)) seen) = Inr out"
        by (simp add: Let_def)
      have "\<forall>l\<in>set (links @ [?link]). \<exists>href. l ''url'' = Some (PStr href) \<and> prefix ''http'' href"
        using Cons.prems(2) \<open>prefix ''http'' (strip (a_href tag))\<close> by simp
      from Cons.IH [OF run this] show ?thesis .
    qed
  qed
qed

lemma scrape_loop_http:
  assumes "scrape_loop w tags links seen = Inr out"
    and "\<forall>l\<in>set links. \<exists>href. l ''url'' = Some (PStr href) \<and> prefix ''http'' href"
  shows "\<forall>l\<in>set out. \<exists>href. l ''url'' = Some (PStr href) \<and> prefix ''http'' href"
  using assms
proof (induction tags arbitrary: links seen)
  case Nil
  then show ?case by simp
next
  case (Cons tag tags)
  show ?case
  proof (cases "prefix ''http'' (strip (a_href tag))")
    case False
    with Cons.prems(1) have "scrape_loop w tags links seen = Inr out"
      by (simp add: Let_def)
    from Cons.IH [OF this Cons.prems(2)] show ?thesis .
  next
    case True
    from True Cons.prems(1) obtain domain where d: "domain_of w (strip (a_href tag)) = Some domain"
      by (cases "domain_of w (strip (a_href tag))") (simp_all add: Let_def)
    show ?thesis
    proof (cases "domain \<in> SKIP_DOMAINS \<or> strip (a_href tag) \<in> seen")
      case True
      with \<open>prefix ''http'' (strip (a_href tag))\<close> d Cons.prems(1)
      have "scrape_loop w tags links seen = Inr out"
        by (auto simp add: Let_def split: if_splits)
      from Cons.IH [OF this Cons.prems(2)] show ?thesis .
    next
      case False
      from False \<open>prefix ''http'' (strip (a_href tag))\<close> d Cons.prems(1)
      obtain link where run: "scrape_loop w tags (links @ [link])
          (insert (strip (a_href tag)) seen) = Inr out"
        and url: "link ''url'' = Some (PStr (strip (a_href tag)))"
        by (simp add: Let_def)
      have "\<forall>l\<in>set (links @ [link]). \<exists>href. l ''url'' = Some (PStr href) \<and> prefix ''http'' href"
        using Cons.prems(2) \<open>prefix ''http'' (strip (a_href tag))\<close> url by simp
      from Cons.IH [OF run this] show ?thesis .
    qed
  qed
qed

lemma http_excludes:
  assumes "prefix ''http'' href"
  shows "\<not> prefix ''#'' href \<and> \<not> prefix ''mailto:'' href \<and> \<not> prefix ''javascript:'' href"
proof -
  from assms obtain rest where "href = ''http'' @ rest"
    by (auto simp add: prefix_def)
  then show ?thesis by simp
qed

lemma extract_page1:
  "extract_links_from_page example_web ''https://www.eyehike.com/p1''
       {''www.eyehike.com'', ''eyehike.com''}
     = Inr [[''url'' \<mapsto> PStr ''https://example.com/ok'', ''label'' \<mapsto> PStr ''first'',
             ''page_url'' \<mapsto> PStr ''https://www.eyehike.com/p1'',
             ''page_title'' \<mapsto> PStr ''Page one''],
            [''url'' \<mapsto> PStr ''httpd/manual.html'', ''label'' \<mapsto> PStr ''manual'',
             ''page_url'' \<mapsto> PStr ''https://www.eyehike.com/p1'',
             ''page_title'' \<mapsto> PStr ''Page one'']]"
  by (simp add: extract_links_from_page_def example_web_def GLOBAL_SKIP_DOMAINS_def
      strip_def isspace_def Let_def)

lemma scrape_page1:
  "scrape_links example_web ''https://www.eyehike.com/p1''
     = Inr [[''url'' \<mapsto> PStr ''https://example.com/ok'', ''label'' \<mapsto> PStr ''first'',
             ''section'' \<mapsto> PStr ''first''],
            [''url'' \<mapsto> PStr ''httpd/manual.html'', ''label'' \<mapsto> PStr ''manual'',
             ''section'' \<mapsto> PStr ''manual'']]"
  by (simp add: scrape_links_def example_web_def SKIP_DOMAINS_def
      strip_def isspace_def Let_def)

text \<open>
  What the guard \<open>href.startswith("http")\<close> does ensure, in both extractors: the \<open>url\<close>
  of every link returned is a string that starts with "http", so no anchor-only target
  (starting with "#") and no \<open>mailto:\<close> or \<open>javascript:\<close> target is among them.
\<close>

lemma extracted_urls_start_with_http:
  "(extract_links_from_page w page_url skip = Inr links \<longrightarrow>
      (\<forall>l\<in>set links. \<exists>href. l ''url'' = Some (PStr href) \<and> prefix ''http'' href
         \<and> \<not> prefix ''#'' href \<and> \<not> prefix ''mailto:'' href \<and> \<not> prefix ''javascript:'' href))
   \<and> (scrape_links w url = Inr links' \<longrightarrow>
      (\<forall>l\<in>set links'. \<exists>href. l ''url'' = Some (PStr href) \<and> prefix ''http'' href
         \<and> \<not> prefix ''#'' href \<and> \<not> prefix ''mailto:'' href \<and> \<not> prefix ''javascript:'' href))"
proof (intro conjI impI)
  assume "extract_links_from_page w page_url skip = Inr links"
  then have "\<forall>l\<in>set links. \<exists>href. l ''url'' = Some (PStr href) \<and> prefix ''http'' href"
    by (auto simp add: extract_links_from_page_def Let_def split: sum.splits
        dest: extract_loop_http)
  then show "\<forall>l\<in>set links. \<exists>href. l ''url'' = Some (PStr href) \<and> prefix ''http'' href
         \<and> \<not> prefix ''#'' href \<and> \<not> prefix ''mailto:'' href \<and> \<not> prefix ''javascript:'' href"
    using http_excludes by blast
next
  assume "scrape_links w url = Inr links'"
  then have "\<forall>l\<in>set links'. \<exists>href. l ''url'' = Some (PStr href) \<and> prefix ''http'' href"
    by (auto simp add: scrape_links_def split: sum.splits dest: scrape_loop_http)
  then show "\<forall>l\<in>set links'. \<exists>href. l ''url'' = Some (PStr href) \<and> prefix ''http'' href
         \<and> \<not> prefix ''#'' href \<and> \<not> prefix ''mailto:'' href \<and> \<not> prefix ''javascript:'' href"
    using http_excludes by blast
qed

text \<open>
  Claim C8, at a page that holds the relative link \<open>href="httpd/manual.html"\<close>, a target
  on the site itself. The guard meant to keep absolute http and https targets only tests
  \<open>href.startswith("http")\<close>, which this target passes; \<open>urlparse\<close> finds no host in
  it, so the skip list of the site's own domains does not remove it either. Both
  extractors return a candidate whose \<open>url\<close> is the relative target, which starts with
  neither "http://" nor "https://" and is not an external link.
\<close>

theorem extract_links_relative_href:
  "domain_of example_web ''httpd/manual.html'' = Some []
   \<and> extract_links_from_page example_web ''https://www.eyehike.com/p1''
       {''www.eyehike.com'', ''eyehike.com''}
     = Inr [[''url'' \<mapsto> PStr ''https://example.com/ok'', ''label'' \<mapsto> PStr ''first'',
             ''page_url'' \<mapsto> PStr ''https://www.eyehike.com/p1'',
             ''page_title'' \<mapsto> PStr ''Page one''],
            [''url'' \<mapsto> PStr ''httpd/manual.html'', ''label'' \<mapsto> PStr ''manual'',
             ''page_url'' \<mapsto> PStr ''https://www.eyehike.com/p1'',
             ''page_title'' \<mapsto> PStr ''Page one'']]
   \<and> scrape_links example_web ''https://www.eyehike.com/p1''
     = Inr [[''url'' \<mapsto> PStr ''https://example.com/ok'', ''label'' \<mapsto> PStr ''first'',
             ''section'' \<mapsto> PStr ''first''],
            [''url'' \<mapsto> PStr ''httpd/manual.html'', ''label'' \<mapsto> PStr ''manual'',
             ''section'' \<mapsto> PStr ''manual'']]
   \<and> \<not> prefix ''http://'' ''httpd/manual.html''
   \<and> \<not> prefix ''https://'' ''httpd/manual.html''"
proof -
  have "domain_of example_web ''httpd/manual.html'' = Some []"
    by (simp add: example_web_def)
  then show ?thesis
    by (simp add: extract_page1 scrape_page1)
qed

section \<open>Properties of the page crawler\<close>

lemma find_append_first:
  "find P (xs @ ys) = (case find P xs of None \<Rightarrow> find P ys | Some x \<Rightarrow> Some x)"
  by (induction xs) simp_all

lemma merge_inv_empty: "merge_inv site_name [] {} []"
  by (simp add: merge_inv_def)

text \<open>A link whose URL has not been seen is appended.\<close>

lemma merge_inv_new:
  assumes inv: "merge_inv n acc seen cands" and url: "l ''url'' = Some u" and new: "u \<notin> seen"
  shows "merge_inv n (acc @ [l(''site'' \<mapsto> PStr n)]) (insert u seen) (cands @ [l])"
proof -
  from inv have seen: "seen = {u. \<exists>r\<in>set acc. r ''url'' = Some u}"
    and dist: "distinct (map (\<lambda>r. r ''url'') acc)"
    and first: "\<forall>r\<in>set acc. \<exists>c. r = c(''site'' \<mapsto> PStr n)
            \<and> find (\<lambda>c'. c' ''url'' = c ''url'') cands = Some c"
    and cover: "\<forall>c\<in>set cands. c ''url'' \<noteq> None \<and> (\<exists>r\<in>set acc. r ''url'' = c ''url'')"
    by (simp_all add: merge_inv_def)
  have fresh_acc: "\<forall>r\<in>set acc. r ''url'' \<noteq> Some u"
    using seen new by auto
  have fresh_cands: "\<forall>c\<in>set cands. c ''url'' \<noteq> Some u"
    using cover fresh_acc by metis
  have a: "insert u seen = {v. \<exists>r\<in>set (acc @ [l(''site'' \<mapsto> PStr n)]). r ''url'' = Some v}"
    using seen url by auto
  have b: "distinct (map (\<lambda>r. r ''url'') (acc @ [l(''site'' \<mapsto> PStr n)]))"
    using dist fresh_acc url by auto
  have none: "find (\<lambda>c'. c' ''url'' = l ''url'') cands = None"
    using fresh_cands url by (simp add: find_None_iff)
  have c_old: "\<forall>r\<in>set acc. \<exists>c. r = c(''site'' \<mapsto> PStr n)
            \<and> find (\<lambda>c'. c' ''url'' = c ''url'') (cands @ [l]) = Some c"
  proof
    fix r assume "r \<in> set acc"
    with first obtain c where "r = c(''site'' \<mapsto> PStr n)"
      and "find (\<lambda>c'. c' ''url'' = c ''url'') cands = Some c" by blast
    then show "\<exists>c. r = c(''site'' \<mapsto> PStr n)
            \<and> find (\<lambda>c'. c' ''url'' = c ''url'') (cands @ [l]) = Some c"
      by (intro exI [of _ c]) (simp add: find_append_first)
  qed
  have c_new: "\<exists>c. l(''site'' \<mapsto> PStr n) = c(''site'' \<mapsto> PStr n)
            \<and> find (\<lambda>c'. c' ''url'' = c ''url'') (cands @ [l]) = Some c"
    using none by (intro exI [of _ l]) (simp add: find_append_first)
  have c: "\<forall>r\<in>set (acc @ [l(''site'' \<mapsto> PStr n)]). \<exists>c. r = c(''site'' \<mapsto> PStr n)
            \<and> find (\<lambda>c'. c' ''url'' = c ''url'') (cands @ [l]) = Some c"
    using c_old c_new by simp
  have d: "\<forall>c\<in>set (cands @ [l]). c ''url'' \<noteq> None
            \<and> (\<exists>r\<in>set (acc @ [l(''site'' \<mapsto> PStr n)]). r ''url'' = c ''url'')"
    using cover url by auto
  from a b c d show ?thesis
    unfolding merge_inv_def by blast
qed

text \<open>A link whose URL has been seen is dropped.\<close>

lemma merge_inv_dup:
  assumes inv: "merge_inv n acc seen cands" and url: "l ''url'' = Some u" and dup: "u \<in> seen"
  shows "merge_inv n acc seen (cands @ [l])"
proof -
  from inv have seen: "seen = {u. \<exists>r\<in>set acc. r ''url'' = Some u}"
    and dist: "distinct (map (\<lambda>r. r ''url'') acc)"
    and first: "\<forall>r\<in>set acc. \<exists>c. r = c(''site'' \<mapsto> PStr n)
            \<and> find (\<lambda>c'. c' ''url'' = c ''url'') cands = Some c"
    and cover: "\<forall>c\<in>set cands. c ''url'' \<noteq> None \<and> (\<exists>r\<in>set acc. r ''url'' = c ''url'')"
    by (simp_all add: merge_inv_def)
  have c: "\<forall>r\<in>set acc. \<exists>c. r = c(''site'' \<mapsto> PStr n)
            \<and> find (\<lambda>c'. c' ''url'' = c ''url'') (cands @ [l]) = Some c"
  proof
    fix r assume "r \<in> set acc"
    with first obtain c where "r = c(''site'' \<mapsto> PStr n)"
      and "find (\<lambda>c'. c' ''url'' = c ''url'') cands = Some c" by blast
    then show "\<exists>c. r = c(''site'' \<mapsto> PStr n)
            \<and> find (\<lambda>c'. c' ''url'' = c ''url'') (cands @ [l]) = Some c"
      by (intro exI [of _ c]) (simp add: find_append_first)
  qed
  have "\<exists>r\<in>set acc. r ''url'' = l ''url''"
    using seen dup url by auto
  then have d: "\<forall>c\<in>set (cands @ [l]). c ''url'' \<noteq> None
            \<and> (\<exists>r\<in>set acc. r ''url'' = c ''url'')"
    using cover url by auto
  from seen dist c d show ?thesis
    unfolding merge_inv_def by blast
qed

lemma merge_links_inv:
  assumes "merge_links n page_links acc seen = Inr (acc', seen')"
    and "merge_inv n acc seen cands"
  shows "merge_inv n acc' seen' (cands @ page_links)"
  using assms
proof (induction page_links arbitrary: acc seen cands)
  case Nil
  then show ?case by simp
next
  case (Cons l page_links)
  from Cons.prems(1) obtain u where url: "l ''url'' = Some u"
    by (cases "l ''url''") simp_all
  show ?case
  proof (cases "u \<in> seen")
    case True
    with Cons.prems(1) url
    have run: "merge_links n page_links acc seen = Inr (acc', seen')" by simp
    have "merge_inv n acc seen (cands @ [l])"
      using Cons.prems(2) url True by (rule merge_inv_dup)
    from Cons.IH [OF run this] show ?thesis by simp
  next
    case False
    with Cons.prems(1) url
    have run: "merge_links n page_links (acc @ [l(''site'' \<mapsto> PStr n)]) (insert u seen)
        = Inr (acc', seen')" by simp
    have "merge_inv n (acc @ [l(''site'' \<mapsto> PStr n)]) (insert u seen) (cands @ [l])"
      using Cons.prems(2) url False by (rule merge_inv_new)
    from Cons.IH [OF run this] show ?thesis by simp
  qed
qed

lemma merge_pages_inv:
  assumes "merge_pages n futures acc seen = Inr out"
    and "merge_inv n acc seen cands"
  shows "\<exists>seen'. merge_inv n out seen'
    (cands @ concat (map (\<lambda>f. case f of Inl e \<Rightarrow> [] | Inr page_links \<Rightarrow> page_links) futures))"
  using assms
proof (induction futures arbitrary: acc seen cands)
  case Nil
  then show ?case by auto
next
  case (Cons f futures)
  from Cons.prems(1) obtain page_links where f: "f = Inr page_links"
    by (cases f) simp_all
  from Cons.prems(1) f obtain acc' seen'
    where links: "merge_links n page_links acc seen = Inr (acc', seen')"
      and rest: "merge_pages n futures acc' seen' = Inr out"
    by (auto split: sum.splits)
  from Cons.IH [OF rest merge_links_inv [OF links Cons.prems(2)]] f
  show ?case by simp
qed

lemma crawl_site_inv:
  assumes "crawl_site w completed site = Inr links"
  shows "\<exists>seen. merge_inv (cfg_name site) links seen (all_page_links w completed site)"
proof -
  from assms obtain page_urls
    where pages: "parse_sitemap_index w (cfg_sitemap_url site) (cfg_sitemap_filter site)
        = Inr page_urls"
    by (auto simp add: crawl_site_def split: sum.splits)
  show ?thesis
  proof (cases "page_urls = []")
    case True
    with assms pages have "links = []" by (simp add: crawl_site_def)
    with True pages show ?thesis
      using merge_inv_empty by (auto simp add: all_page_links_def)
  next
    case False
    with assms pages
    have "merge_pages (cfg_name site)
        (map (\<lambda>url. extract_links_from_page w url (cfg_skip_domains site)) (completed page_urls))
        [] {} = Inr links"
      by (simp add: crawl_site_def)
    from merge_pages_inv [OF this merge_inv_empty] False pages
    show ?thesis
      by (simp add: all_page_links_def comp_def)
  qed
qed

text \<open>
  Claim C7. In the list \<open>crawl_site\<close> returns no two links have the same \<open>url\<close>; each
  is, with the site name added, the first link with its URL among the links of the pages
  taken in the order in which the page tasks complete, so its label and page context are
  those of the first page seen; and every URL found on some page is the \<open>url\<close> of a
  link of the list.
\<close>

theorem crawl_site_unique_first:
  assumes "crawl_site w completed site = Inr links"
  shows "distinct (map (\<lambda>r. r ''url'') links)
    \<and> (\<forall>r\<in>set links. \<exists>c. r = c(''site'' \<mapsto> PStr (cfg_name site))
          \<and> find (\<lambda>c'. c' ''url'' = c ''url'') (all_page_links w completed site) = Some c)
    \<and> (\<forall>c\<in>set (all_page_links w completed site). \<exists>r\<in>set links. r ''url'' = c ''url'')"
  using crawl_site_inv [OF assms] unfolding merge_inv_def by blast

lemma extract_page2:
  "extract_links_from_page example_web ''https://www.eyehike.com/p2''
       {''www.eyehike.com'', ''eyehike.com''}
     = Inr [[''url'' \<mapsto> PStr ''https://example.com/ok'', ''label'' \<mapsto> PStr ''second'',
             ''page_url'' \<mapsto> PStr ''https://www.eyehike.com/p2'',
             ''page_title'' \<mapsto> PStr ''Page two'']]"
  by (simp add: extract_links_from_page_def example_web_def GLOBAL_SKIP_DOMAINS_def
      strip_def isspace_def Let_def)

lemma example_site_fields:
  "cfg_name example_site = ''Eyehike''"
  "cfg_sitemap_url example_site = ''https://www.eyehike.com/sitemap_index.xml''"
  "cfg_sitemap_filter example_site = [''post-sitemap.xml'', ''page-sitemap.xml'']"
  "cfg_skip_domains example_site = {''www.eyehike.com'', ''eyehike.com''}"
  by (simp_all add: example_site_def)

theorem crawl_site_unique_first_witness:
  "crawl_site example_web (\<lambda>urls. urls) example_site =
     Inr [[''url'' \<mapsto> PStr ''https://example.com/ok'', ''label'' \<mapsto> PStr ''first'',
           ''page_url'' \<mapsto> PStr ''https://www.eyehike.com/p1'',
           ''page_title'' \<mapsto> PStr ''Page one'', ''site'' \<mapsto> PStr ''Eyehike''],
          [''url'' \<mapsto> PStr ''httpd/manual.html'', ''label'' \<mapsto> PStr ''manual'',
           ''page_url'' \<mapsto> PStr ''https://www.eyehike.com/p1'',
           ''page_title'' \<mapsto> PStr ''Page one'', ''site'' \<mapsto> PStr ''Eyehike'']]
   \<and> all_page_links example_web (\<lambda>urls. urls) example_site =
       [[''url'' \<mapsto> PStr ''https://example.com/ok'', ''label'' \<mapsto> PStr ''first'',
         ''page_url'' \<mapsto> PStr ''https://www.eyehike.com/p1'',
         ''page_title'' \<mapsto> PStr ''Page one''],
        [''url'' \<mapsto> PStr ''httpd/manual.html'', ''label'' \<mapsto> PStr ''manual'',
         ''page_url'' \<mapsto> PStr ''https://www.eyehike.com/p1'',
         ''page_title'' \<mapsto> PStr ''Page one''],
        [''url'' \<mapsto> PStr ''https://example.com/ok'', ''label'' \<mapsto> PStr ''second'',
         ''page_url'' \<mapsto> PStr ''https://www.eyehike.com/p2'',
         ''page_title'' \<mapsto> PStr ''Page two'']]
   \<and> distinct (map (\<lambda>r. r ''url'')
       [[''url'' \<mapsto> PStr ''https://example.com/ok'', ''label'' \<mapsto> PStr ''first'',
           ''page_url'' \<mapsto> PStr ''https://www.eyehike.com/p1'',
           ''page_title'' \<mapsto> PStr ''Page one'', ''site'' \<mapsto> PStr ''Eyehike''],
          [''url'' \<mapsto> PStr ''httpd/manual.html'', ''label'' \<mapsto> PStr ''manual'',
           ''page_url'' \<mapsto> PStr ''https://www.eyehike.com/p1'',
           ''page_title'' \<mapsto> PStr ''Page one'', ''site'' \<mapsto> PStr ''Eyehike'']])"
proof -
  have run: "crawl_site example_web (\<lambda>urls. urls) example_site =
     Inr [[''url'' \<mapsto> PStr ''https://example.com/ok'', ''label'' \<mapsto> PStr ''first'',
           ''page_url'' \<mapsto> PStr ''https://www.eyehike.com/p1'',
           ''page_title'' \<mapsto> PStr ''Page one'', ''site'' \<mapsto> PStr ''Eyehike''],
          [''url'' \<mapsto> PStr ''httpd/manual.html'', ''label'' \<mapsto> PStr ''manual'',
           ''page_url'' \<mapsto> PStr ''https://www.eyehike.com/p1'',
           ''page_title'' \<mapsto> PStr ''Page one'', ''site'' \<mapsto> PStr ''Eyehike'']]"
    by (simp add: crawl_site_def example_site_fields parse_sitemap_index_example
        extract_page1 extract_page2)
  have cands: "all_page_links example_web (\<lambda>urls. urls) example_site =
       [[''url'' \<mapsto> PStr ''https://example.com/ok'', ''label'' \<mapsto> PStr ''first'',
         ''page_url'' \<mapsto> PStr ''https://www.eyehike.com/p1'',
         ''page_title'' \<mapsto> PStr ''Page one''],
        [''url'' \<mapsto> PStr ''httpd/manual.html'', ''label'' \<mapsto> PStr ''manual'',
         ''page_url'' \<mapsto> PStr ''https://www.eyehike.com/p1'',
         ''page_title'' \<mapsto> PStr ''Page one''],
        [''url'' \<mapsto> PStr ''https://example.com/ok'', ''label'' \<mapsto> PStr ''second'',
         ''page_url'' \<mapsto> PStr ''https://www.eyehike.com/p2'',
         ''page_title'' \<mapsto> PStr ''Page two'']]"
    by (simp add: all_page_links_def example_site_fields parse_sitemap_index_example
        extract_page1 extract_page2)
  from crawl_site_unique_first [OF run] run cands show ?thesis
    by simp
qed

end
